theory Spec2Isabelle
  imports Main "HOL-Library.Sublist"
begin

section \<open>The icon maker: one JPEG in, three PNG icons out\<close>

text \<open>
  The script \<^verbatim>\<open>icon_maker.py\<close> is fifteen lines of glue over the Pillow imaging
  library:
  \<^verbatim>\<open>
  img = Image.open("Icon.jpeg")
  sizes = [(16, 16), (48, 48), (128, 128)]
  filenames = ["icon16.png", "icon48.png", "icon128.png"]
  for size, filename in zip(sizes, filenames):
      img_resized = img.resize(size)
      img_resized.save(filename, "PNG")
  print("PNG icons generated successfully!")
  \<close>
  The model below embeds the script itself. The imaging library is not part of the
  repository: its three entry points are parameters of the model, and what a theorem needs
  of them is a named contract among its hypotheses.
\<close>

subsection \<open>Data\<close>

text \<open>
  A bitmap: pixel dimensions (width, height) as Python integers, a colour mode
  (\<open>''RGB''\<close>, \<open>''L''\<close>, \<open>''CMYK''\<close>, ...) and the pixel at column \<open>x\<close>, row \<open>y\<close>.
\<close>

record image =
  im_size :: "int \<times> int"
  im_mode :: string
  im_data :: "int \<Rightarrow> int \<Rightarrow> nat"

text \<open>
  A file on disk, seen through its decoding: an image file is the format it is encoded
  in together with the bitmap it decodes to; any other file is its bytes.
\<close>

datatype content = Encoded string image | Raw "nat list"

text \<open>The exceptions the library and the file system raise.\<close>

datatype error = FileNotFoundError | UnidentifiedImageError | OSError | ValueError

text \<open>
  What a run does to the outside, in the order it does it: a file written to the end
  (a \<open>save\<close> that returned), a line printed on standard output.
\<close>

datatype event = Write string | Print string

record world =
  files :: "string \<rightharpoonup> content"
  events :: "event list"

subsection \<open>The imaging library\<close>

text \<open>
  \<^item> \<open>decode\<close>: what \<^verbatim>\<open>Image.open\<close> makes of the file it finds: a bitmap, or the
    exception raised for an unreadable file or one that is no image;
  \<^item> \<open>resize\<close>: the method \<^verbatim>\<open>img.resize(size)\<close>. It returns the receiver as the call
    leaves it together with the resized bitmap, or the exception raised;
  \<^item> \<open>save\<close>: the method \<^verbatim>\<open>img.save(filename, format)\<close> on a file system. It returns the
    exception raised, if any, together with the file system as the call leaves it.
\<close>

record pil =
  decode :: "content \<Rightarrow> error + image"
  resize :: "image \<Rightarrow> int \<times> int \<Rightarrow> error + image \<times> image"
  save :: "image \<Rightarrow> string \<Rightarrow> string \<Rightarrow> (string \<rightharpoonup> content) \<Rightarrow> error option \<times> (string \<rightharpoonup> content)"

text \<open>\<^verbatim>\<open>Image.open(path)\<close>: a missing file raises, a file found is decoded.\<close>

definition Image_open :: "pil \<Rightarrow> (string \<rightharpoonup> content) \<Rightarrow> string \<Rightarrow> error + image" where
  "Image_open lib fs path =
     (case fs path of None \<Rightarrow> Inl FileNotFoundError | Some f \<Rightarrow> decode lib f)"

subsection \<open>The script\<close>

definition sizes :: "(int \<times> int) list" where
  "sizes = [(16, 16), (48, 48), (128, 128)]"

definition filenames :: "string list" where
  "filenames = [''icon16.png'', ''icon48.png'', ''icon128.png'']"

text \<open>
  The \<^verbatim>\<open>for\<close> loop over the zipped pairs. An exception of \<open>resize\<close> or \<open>save\<close> is not
  caught: the loop stops there, and the result carries the exception and the world as it
  is at that moment. The variable \<open>img\<close> is threaded through the iterations as each
  \<open>resize\<close> call leaves it. (The loop variable \<^verbatim>\<open>size\<close> is \<open>sz\<close> here: \<open>size\<close> is a
  constant of HOL.)
\<close>

fun loop :: "pil \<Rightarrow> image \<Rightarrow> ((int \<times> int) \<times> string) list \<Rightarrow> world \<Rightarrow> error option \<times> image \<times> world" where
  "loop lib img [] w = (None, img, w)"
| "loop lib img ((sz, filename) # rest) w =
     (case resize lib img sz of
        Inl e \<Rightarrow> (Some e, img, w)
      | Inr (img', img_resized) \<Rightarrow>
          (case save lib img_resized filename ''PNG'' (files w) of
             (Some e, fs') \<Rightarrow> (Some e, img', w\<lparr>files := fs'\<rparr>)
           | (None, fs') \<Rightarrow>
               loop lib img' rest (w\<lparr>files := fs', events := events w @ [Write filename]\<rparr>)))"

text \<open>
  The whole script: the uncaught exception that ended the run (\<open>None\<close> for a run that
  reached the end) and the world the run leaves.
\<close>

definition icon_maker :: "pil \<Rightarrow> world \<Rightarrow> error option \<times> world" where
  "icon_maker lib w =
     (case Image_open lib (files w) ''Icon.jpeg'' of
        Inl e \<Rightarrow> (Some e, w)
      | Inr img \<Rightarrow>
          (case loop lib img (zip sizes filenames) w of
             (Some e, img', w') \<Rightarrow> (Some e, w')
           | (None, img', w') \<Rightarrow>
               (None, w'\<lparr>events := events w' @ [Print ''PNG icons generated successfully!'']\<rparr>)))"

text \<open>The interpreter's exit status: 0 at the end of the script, 1 on an uncaught exception.\<close>

definition exit_code :: "error option \<Rightarrow> int" where
  "exit_code r = (case r of None \<Rightarrow> 0 | Some e \<Rightarrow> 1)"

text \<open>The events of a run: what the world after it has recorded beyond the world before it.\<close>

definition new_events :: "world \<Rightarrow> world \<Rightarrow> event list" where
  "new_events w w' = drop (length (events w)) (events w')"

subsection \<open>Contracts of the library\<close>

text \<open>A resize that returns, returns a bitmap of the size asked for.\<close>

definition resize_exact :: "pil \<Rightarrow> bool" where
  "resize_exact lib \<longleftrightarrow>
     (\<forall>img sz img' out. resize lib img sz = Inr (img', out) \<longrightarrow> im_size out = sz)"

text \<open>A resize that returns, returns a copy: it leaves its receiver as it was.\<close>

definition resize_copies :: "pil \<Rightarrow> bool" where
  "resize_copies lib \<longleftrightarrow>
     (\<forall>img sz img' out. resize lib img sz = Inr (img', out) \<longrightarrow> img' = img)"

text \<open>
  A save touches no file but its target, whether it returns or raises; when it returns,
  the target holds the bitmap in the format asked for, whatever it held before.
\<close>

definition save_contract :: "pil \<Rightarrow> bool" where
  "save_contract lib \<longleftrightarrow>
     (\<forall>img path fmt fs r fs'. save lib img path fmt fs = (r, fs') \<longrightarrow>
        (\<forall>q. q \<noteq> path \<longrightarrow> fs' q = fs q) \<and>
        (r = None \<longrightarrow> fs' path = Some (Encoded fmt img)))"

text \<open>
  A file that holds no image is refused: by the open, or, where the open is lazy and reads
  the header alone, by the first call that needs the pixels.
\<close>

definition refuses_undecodable :: "pil \<Rightarrow> bool" where
  "refuses_undecodable lib \<longleftrightarrow>
     (\<forall>bs. (\<exists>e. decode lib (Raw bs) = Inl e) \<or>
           (\<exists>img. decode lib (Raw bs) = Inr img \<and> (\<forall>sz. \<exists>e. resize lib img sz = Inl e)))"

text \<open>
  The part of the save contract that says nothing of what is stored: a save touches no
  file but its target, and when it returns the target exists.
\<close>

definition save_local :: "pil \<Rightarrow> bool" where
  "save_local lib \<longleftrightarrow>
     (\<forall>img path fmt fs r fs'. save lib img path fmt fs = (r, fs') \<longrightarrow>
        (\<forall>q. q \<noteq> path \<longrightarrow> fs' q = fs q) \<and> (r = None \<longrightarrow> fs' path \<noteq> None))"

text \<open>
  The library as one run meets it and as another run meets it behave alike: the open and
  the resize return the same in both, and a save raises or returns, and stores at its
  target what it stores, whatever the file system holds. Two runs against one fixed,
  deterministic library version that overwrites silently are such a pair; a library that
  resamples at random, stamps its files with the time or refuses to overwrite is not.
\<close>

definition same_behaviour :: "pil \<Rightarrow> pil \<Rightarrow> bool" where
  "same_behaviour lib lib' \<longleftrightarrow>
     decode lib' = decode lib \<and> resize lib' = resize lib \<and>
     (\<forall>img path fmt fs fs'.
        fst (save lib' img path fmt fs') = fst (save lib img path fmt fs) \<and>
        (fst (save lib img path fmt fs) = None \<longrightarrow>
           snd (save lib' img path fmt fs') path = snd (save lib img path fmt fs) path))"

subsection \<open>Observations\<close>

text \<open>What a decoder reads off the file at a path: the bitmap's dimensions, the format.\<close>

definition image_size_of :: "(string \<rightharpoonup> content) \<Rightarrow> string \<Rightarrow> (int \<times> int) option" where
  "image_size_of fs path =
     (case fs path of Some (Encoded fmt img) \<Rightarrow> Some (im_size img) | _ \<Rightarrow> None)"

definition format_of :: "(string \<rightharpoonup> content) \<Rightarrow> string \<Rightarrow> string option" where
  "format_of fs path = (case fs path of Some (Encoded fmt img) \<Rightarrow> Some fmt | _ \<Rightarrow> None)"

text \<open>The file at the source path holds an image.\<close>

definition source_decodable :: "world \<Rightarrow> bool" where
  "source_decodable w =
     (case files w ''Icon.jpeg'' of Some (Encoded fmt img) \<Rightarrow> True | _ \<Rightarrow> False)"

text \<open>The lines printed among some events, in order.\<close>

fun printed :: "event list \<Rightarrow> string list" where
  "printed [] = []"
| "printed (Print s # es) = s # printed es"
| "printed (Write path # es) = printed es"

text \<open>The events of a run that reaches the end of the script.\<close>

definition full_run :: "event list" where
  "full_run = map Write filenames @ [Print ''PNG icons generated successfully!'']"

subsection \<open>A library instance to run the script on\<close>

text \<open>
  Nearest-neighbour resampling to the exact box, no aspect ratio kept; a PNG encoder that
  accepts the colour modes PNG can hold and refuses the others, as Pillow's does for CMYK;
  and a list of paths the file system refuses to write.
\<close>

definition nearest :: "image \<Rightarrow> int \<times> int \<Rightarrow> image" where
  "nearest img sz =
     \<lparr>im_size = sz, im_mode = im_mode img,
      im_data = (\<lambda>x y. im_data img (x * fst (im_size img) div fst sz)
                                   (y * snd (im_size img) div snd sz))\<rparr>"

definition png_modes :: "string list" where
  "png_modes = [''1'', ''L'', ''LA'', ''I'', ''I;16'', ''P'', ''RGB'', ''RGBA'']"

definition sim_decode :: "content \<Rightarrow> error + image" where
  "sim_decode f = (case f of Encoded fmt img \<Rightarrow> Inr img | Raw bs \<Rightarrow> Inl UnidentifiedImageError)"

definition sim_resize :: "image \<Rightarrow> int \<times> int \<Rightarrow> error + image \<times> image" where
  "sim_resize img sz =
     (if fst sz \<le> 0 \<or> snd sz \<le> 0 then Inl ValueError else Inr (img, nearest img sz))"

definition sim_save :: "string list \<Rightarrow> image \<Rightarrow> string \<Rightarrow> string \<Rightarrow> (string \<rightharpoonup> content) \<Rightarrow> error option \<times> (string \<rightharpoonup> content)" where
  "sim_save locked img path fmt fs =
     (if fmt = ''PNG'' \<and> im_mode img \<notin> set png_modes then (Some OSError, fs)
      else if path \<in> set locked then (Some OSError, fs)
      else (None, fs(path \<mapsto> Encoded fmt img)))"

definition sim_pil :: "string list \<Rightarrow> pil" where
  "sim_pil locked = \<lparr>decode = sim_decode, resize = sim_resize, save = sim_save locked\<rparr>"

text \<open>
  A library whose open is lazy: a file that starts with the JPEG marker but holds no
  image is opened on its header, as an image of mode \<open>''unread''\<close>, and the resize that
  reads the pixels raises.
\<close>

definition header_only :: image where
  "header_only = \<lparr>im_size = (4, 2), im_mode = ''unread'', im_data = (\<lambda>x y. 0)\<rparr>"

definition lazy_decode :: "content \<Rightarrow> error + image" where
  "lazy_decode f =
     (case f of
        Encoded fmt img \<Rightarrow> Inr img
      | Raw bs \<Rightarrow> if take 2 bs = [255, 216] then Inr header_only else Inl UnidentifiedImageError)"

definition lazy_resize :: "image \<Rightarrow> int \<times> int \<Rightarrow> error + image \<times> image" where
  "lazy_resize img sz = (if im_mode img = ''unread'' then Inl OSError else sim_resize img sz)"

definition lazy_pil :: pil where
  "lazy_pil = \<lparr>decode = lazy_decode, resize = lazy_resize, save = sim_save []\<rparr>"

text \<open>A 4 by 2 RGB picture, the same picture in CMYK, and a directory holding one of them.\<close>

definition photo :: "string \<Rightarrow> image" where
  "photo m = \<lparr>im_size = (4, 2), im_mode = m, im_data = (\<lambda>x y. nat (x + 4 * y))\<rparr>"

definition desk :: "string \<Rightarrow> world" where
  "desk m = \<lparr>files = [''Icon.jpeg'' \<mapsto> Encoded ''JPEG'' (photo m)], events = []\<rparr>"

definition empty_desk :: world where
  "empty_desk = \<lparr>files = Map.empty, events = []\<rparr>"

definition junk_desk :: world where
  "junk_desk = \<lparr>files = [''Icon.jpeg'' \<mapsto> Raw [1, 2, 3]], events = []\<rparr>"

text \<open>A source cut short after its JPEG header.\<close>

definition cut_desk :: world where
  "cut_desk = \<lparr>files = [''Icon.jpeg'' \<mapsto> Raw [255, 216, 255, 224]], events = []\<rparr>"

text \<open>A directory with the source, a stale file under an output name and a bystander.\<close>

definition stale_desk :: world where
  "stale_desk =
     \<lparr>files = [''Icon.jpeg'' \<mapsto> Encoded ''JPEG'' (photo ''RGB''),
               ''icon16.png'' \<mapsto> Raw [0], ''notes.txt'' \<mapsto> Raw [7]],
      events = [Print ''earlier'']\<rparr>"

section \<open>Properties\<close>

subsection \<open>The library instance meets the contracts\<close>

lemma sim_resize_exact: "resize_exact (sim_pil locked)"
  by (auto simp: resize_exact_def sim_pil_def sim_resize_def nearest_def split: if_splits)

lemma sim_resize_copies: "resize_copies (sim_pil locked)"
  by (auto simp: resize_copies_def sim_pil_def sim_resize_def split: if_splits)

lemma sim_save_contract: "save_contract (sim_pil locked)"
  by (auto simp: save_contract_def sim_pil_def sim_save_def split: if_splits)

lemma sim_refuses_undecodable: "refuses_undecodable (sim_pil locked)"
  by (simp add: refuses_undecodable_def sim_pil_def sim_decode_def)

lemma lazy_refuses_undecodable: "refuses_undecodable lazy_pil"
  by (simp add: refuses_undecodable_def lazy_pil_def lazy_decode_def lazy_resize_def header_only_def)

lemma sim_save_local: "save_local (sim_pil locked)"
  by (auto simp: save_local_def sim_pil_def sim_save_def split: if_splits)

lemma sim_same_behaviour: "same_behaviour (sim_pil locked) (sim_pil locked)"
  by (simp add: same_behaviour_def sim_pil_def sim_save_def)

subsection \<open>The loop, iteration by iteration\<close>

lemma loop_Cons_cases:
  assumes "loop lib img ((sz, name) # rest) w = (r, img', w')"
  obtains
    (resize_raised) e where "resize lib img sz = Inl e" "r = Some e" "img' = img" "w' = w"
  | (save_raised) e img1 out fs1 where "resize lib img sz = Inr (img1, out)"
      "save lib out name ''PNG'' (files w) = (Some e, fs1)"
      "r = Some e" "img' = img1" "w' = w\<lparr>files := fs1\<rparr>"
  | (saved) img1 out fs1 where "resize lib img sz = Inr (img1, out)"
      "save lib out name ''PNG'' (files w) = (None, fs1)"
      "loop lib img1 rest (w\<lparr>files := fs1, events := events w @ [Write name]\<rparr>) = (r, img', w')"
  using assms by (auto split: sum.splits prod.splits option.splits)

lemma loop_events:
  "loop lib img ps w = (r, img', w') \<Longrightarrow>
     \<exists>n\<le>length ps. events w' = events w @ map Write (take n (map snd ps)) \<and>
        (r = None \<longleftrightarrow> n = length ps)"
proof (induction ps arbitrary: img w)
  case Nil
  then show ?case by simp
next
  case (Cons p ps)
  obtain sz name where p: "p = (sz, name)" by (cases p)
  from Cons.prems [unfolded p] show ?case
  proof (cases rule: loop_Cons_cases)
    case (resize_raised e)
    then show ?thesis by (intro exI [of _ 0]) simp
  next
    case (save_raised e img1 out fs1)
    then show ?thesis by (intro exI [of _ 0]) simp
  next
    case (saved img1 out fs1)
    from Cons.IH [OF saved(3)] obtain n where
      "n \<le> length ps" "events w' = (events w @ [Write name]) @ map Write (take n (map snd ps))"
      "r = None \<longleftrightarrow> n = length ps" by auto
    then show ?thesis by (intro exI [of _ "Suc n"]) (simp add: p)
  qed
qed

lemma loop_frame:
  assumes "save_contract lib"
  shows "loop lib img ps w = (r, img', w') \<Longrightarrow> q \<notin> snd ` set ps \<Longrightarrow> files w' q = files w q"
proof (induction ps arbitrary: img w)
  case Nil
  then show ?case by simp
next
  case (Cons p ps)
  obtain sz name where p: "p = (sz, name)" by (cases p)
  from Cons.prems(2) p have q: "q \<noteq> name" "q \<notin> snd ` set ps" by auto
  from Cons.prems(1) [unfolded p] show ?case
  proof (cases rule: loop_Cons_cases)
    case (resize_raised e)
    then show ?thesis by simp
  next
    case (save_raised e img1 out fs1)
    with assms q show ?thesis unfolding save_contract_def by auto
  next
    case (saved img1 out fs1)
    from assms saved(2) q have "fs1 q = files w q" unfolding save_contract_def by blast
    with Cons.IH [OF saved(3) q(2)] show ?thesis by simp
  qed
qed

lemma loop_run:
  assumes sc: "save_contract lib"
  shows "distinct (map snd ps) \<Longrightarrow> loop lib img ps w = (r, img', w') \<Longrightarrow>
     \<exists>n\<le>length ps.
        events w' = events w @ map Write (take n (map snd ps)) \<and>
        (r = None \<longleftrightarrow> n = length ps) \<and>
        (\<forall>(sz, name)\<in>set (take n ps). \<exists>src src' out.
            resize lib src sz = Inr (src', out) \<and> (resize_copies lib \<longrightarrow> src = img) \<and>
            files w' name = Some (Encoded ''PNG'' out)) \<and>
        (\<forall>q. q \<notin> set (take (Suc n) (map snd ps)) \<longrightarrow> files w' q = files w q)"
proof (induction ps arbitrary: img w)
  case Nil
  then show ?case by simp
next
  case (Cons p ps)
  obtain sz name where p: "p = (sz, name)" by (cases p)
  from Cons.prems(1) p have fresh: "name \<notin> snd ` set ps" and dist: "distinct (map snd ps)"
    by auto
  from Cons.prems(2) [unfolded p] show ?case
  proof (cases rule: loop_Cons_cases)
    case (resize_raised e)
    then show ?thesis by (intro exI [of _ 0]) simp
  next
    case (save_raised e img1 out fs1)
    from sc save_raised(2) have "\<forall>q. q \<noteq> name \<longrightarrow> fs1 q = files w q"
      unfolding save_contract_def by blast
    with save_raised show ?thesis by (intro exI [of _ 0]) (simp add: p)
  next
    case (saved img1 out fs1)
    let ?w1 = "w\<lparr>files := fs1, events := events w @ [Write name]\<rparr>"
    from sc saved(2) have others: "\<forall>q. q \<noteq> name \<longrightarrow> fs1 q = files w q"
      and target: "fs1 name = Some (Encoded ''PNG'' out)"
      unfolding save_contract_def by blast+
    from Cons.IH [OF dist saved(3)] obtain n where n: "n \<le> length ps"
      and ev: "events w' = events ?w1 @ map Write (take n (map snd ps))"
      and fin: "r = None \<longleftrightarrow> n = length ps"
      and outs: "\<forall>(sz, name)\<in>set (take n ps). \<exists>src src' out.
            resize lib src sz = Inr (src', out) \<and> (resize_copies lib \<longrightarrow> src = img1) \<and>
            files w' name = Some (Encoded ''PNG'' out)"
      and frame: "\<forall>q. q \<notin> set (take (Suc n) (map snd ps)) \<longrightarrow> files w' q = files ?w1 q"
      by blast
    have copies: "resize_copies lib \<longrightarrow> img1 = img"
      using saved(1) unfolding resize_copies_def by blast
    from fresh have "name \<notin> set (take (Suc n) (map snd ps))"
      by (metis in_set_takeD set_map)
    with frame target have here: "files w' name = Some (Encoded ''PNG'' out)" by simp
    have first: "\<exists>src src' out'. resize lib src sz = Inr (src', out') \<and>
        (resize_copies lib \<longrightarrow> src = img) \<and> files w' name = Some (Encoded ''PNG'' out')"
      using saved(1) here by blast
    have rest: "\<forall>(sz, name)\<in>set (take n ps). \<exists>src src' out.
            resize lib src sz = Inr (src', out) \<and> (resize_copies lib \<longrightarrow> src = img) \<and>
            files w' name = Some (Encoded ''PNG'' out)"
      using outs copies by fastforce
    have frame': "\<forall>q. q \<notin> set (take (Suc (Suc n)) (map snd (p # ps))) \<longrightarrow> files w' q = files w q"
      using frame others by (simp add: p)
    show ?thesis
      using n ev fin first rest frame' by (intro exI [of _ "Suc n"]) (simp add: p)
  qed
qed

lemma loop_keeps_source:
  "resize_copies lib \<Longrightarrow> loop lib img ps w = (r, img', w') \<Longrightarrow> img' = img"
proof (induction ps arbitrary: img w)
  case Nil
  then show ?case by simp
next
  case (Cons p ps)
  obtain sz name where p: "p = (sz, name)" by (cases p)
  from Cons.prems(2) [unfolded p] show ?case
  proof (cases rule: loop_Cons_cases)
    case (resize_raised e)
    then show ?thesis by simp
  next
    case (save_raised e img1 out fs1)
    with Cons.prems(1) show ?thesis unfolding resize_copies_def by blast
  next
    case (saved img1 out fs1)
    from Cons.prems(1) saved(1) have "img1 = img" unfolding resize_copies_def by blast
    with Cons.IH [OF Cons.prems(1) saved(3)] show ?thesis by simp
  qed
qed

lemma loop_append:
  "loop lib img (xs @ ys) w =
     (case loop lib img xs w of
        (None, img1, w1) \<Rightarrow> loop lib img1 ys w1
      | (Some e, img1, w1) \<Rightarrow> (Some e, img1, w1))"
proof (induction xs arbitrary: img w)
  case Nil
  then show ?case by simp
next
  case (Cons p xs)
  obtain sz name where p: "p = (sz, name)" by (cases p)
  show ?case unfolding p
    by (simp add: Cons.IH split: sum.splits prod.splits option.splits)
qed

lemma names_of_zip: "map snd (zip ss ns) = take (min (length ss) (length ns)) ns"
  by (rule map_snd_zip_take)

lemma loop_zip_files:
  assumes sc: "save_contract lib" and re: "resize_exact lib" and d: "distinct ns"
    and run: "loop lib img (zip ss ns) w = (r, img', w')"
  shows "\<exists>n\<le>min (length ss) (length ns).
           events w' = events w @ map Write (take n ns) \<and>
           (r = None \<longleftrightarrow> n = min (length ss) (length ns)) \<and>
           (\<forall>i<n. image_size_of (files w') (ns ! i) = Some (ss ! i) \<and>
                  format_of (files w') (ns ! i) = Some ''PNG'') \<and>
           (\<forall>q. q \<notin> set (take (Suc n) ns) \<longrightarrow> files w' q = files w q) \<and>
           (r = None \<longrightarrow> (\<forall>q. q \<notin> set (take n ns) \<longrightarrow> files w' q = files w q))"
proof -
  let ?m = "min (length ss) (length ns)"
  have dz: "distinct (map snd (zip ss ns))"
    unfolding names_of_zip using d by (rule distinct_take)
  from loop_run [OF sc dz run] obtain n where n: "n \<le> ?m"
    and ev: "events w' = events w @ map Write (take n (take ?m ns))"
    and fin: "r = None \<longleftrightarrow> n = ?m"
    and outs: "\<forall>(sz, name)\<in>set (take n (zip ss ns)). \<exists>src src' out.
        resize lib src sz = Inr (src', out) \<and> (resize_copies lib \<longrightarrow> src = img) \<and>
        files w' name = Some (Encoded ''PNG'' out)"
    and frame: "\<forall>q. q \<notin> set (take (Suc n) (take ?m ns)) \<longrightarrow> files w' q = files w q"
    unfolding names_of_zip by auto
  from n have tk: "take n (take ?m ns) = take n ns" by (simp add: min_absorb1)
  have files: "\<forall>i<n. image_size_of (files w') (ns ! i) = Some (ss ! i) \<and>
                  format_of (files w') (ns ! i) = Some ''PNG''"
  proof (intro allI impI)
    fix i assume i: "i < n"
    with n have "i < length (zip ss ns)" by simp
    with i have "(ss ! i, ns ! i) \<in> set (take n (zip ss ns))"
      by (metis in_set_conv_nth length_take min_less_iff_conj nth_take nth_zip length_zip)
    with outs obtain src src' out where "resize lib src (ss ! i) = Inr (src', out)"
      and f: "files w' (ns ! i) = Some (Encoded ''PNG'' out)" by fastforce
    with re have "im_size out = ss ! i" unfolding resize_exact_def by blast
    with f show "image_size_of (files w') (ns ! i) = Some (ss ! i) \<and>
                  format_of (files w') (ns ! i) = Some ''PNG''"
      by (simp add: image_size_of_def format_of_def)
  qed
  have frame': "\<forall>q. q \<notin> set (take (Suc n) ns) \<longrightarrow> files w' q = files w q"
  proof (intro allI impI)
    fix q assume "q \<notin> set (take (Suc n) ns)"
    then have "q \<notin> set (take (Suc n) (take ?m ns))"
      by (metis in_set_takeD take_take min.commute set_take_subset subsetD)
    with frame show "files w' q = files w q" by blast
  qed
  have whole: "r = None \<longrightarrow> (\<forall>q. q \<notin> set (take n ns) \<longrightarrow> files w' q = files w q)"
  proof (intro allI impI)
    fix q assume "r = None" and q: "q \<notin> set (take n ns)"
    with fin have "n = ?m" by simp
    with q have "q \<notin> snd ` set (zip ss ns)"
      by (metis names_of_zip set_map)
    with loop_frame [OF sc run] show "files w' q = files w q" by blast
  qed
  from n ev fin files frame' whole show ?thesis unfolding tk by blast
qed

lemma loop_frame_local:
  assumes "save_local lib"
  shows "loop lib img ps w = (r, img', w') \<Longrightarrow> q \<notin> snd ` set ps \<Longrightarrow> files w' q = files w q"
proof (induction ps arbitrary: img w)
  case Nil
  then show ?case by simp
next
  case (Cons p ps)
  obtain sz name where p: "p = (sz, name)" by (cases p)
  from Cons.prems(2) p have q: "q \<noteq> name" "q \<notin> snd ` set ps" by auto
  from Cons.prems(1) [unfolded p] show ?case
  proof (cases rule: loop_Cons_cases)
    case (resize_raised e)
    then show ?thesis by simp
  next
    case (save_raised e img1 out fs1)
    with assms q show ?thesis unfolding save_local_def by auto
  next
    case (saved img1 out fs1)
    from assms saved(2) q have "fs1 q = files w q" unfolding save_local_def by blast
    with Cons.IH [OF saved(3) q(2)] show ?thesis by simp
  qed
qed

lemma loop_again:
  assumes la: "save_local lib" and lb: "save_local lib'" and same: "same_behaviour lib lib'"
  shows "loop lib img ps wa = (None, ia, wa') \<Longrightarrow>
     \<exists>ib wb'. loop lib' img ps wb = (None, ib, wb') \<and>
        events wb' = events wb @ map Write (map snd ps) \<and>
        (\<forall>q\<in>snd ` set ps. files wb' q = files wa' q \<and> files wa' q \<noteq> None)"
proof (induction ps arbitrary: img wa wb)
  case Nil
  then show ?case by simp
next
  case (Cons p ps)
  obtain sz name where p: "p = (sz, name)" by (cases p)
  from Cons.prems [unfolded p] obtain img1 out fa where
    ra: "resize lib img sz = Inr (img1, out)"
    and sa: "save lib out name ''PNG'' (files wa) = (None, fa)"
    and rest: "loop lib img1 ps (wa\<lparr>files := fa, events := events wa @ [Write name]\<rparr>) = (None, ia, wa')"
    by (cases rule: loop_Cons_cases) simp_all
  from same ra have rb: "resize lib' img sz = Inr (img1, out)"
    unfolding same_behaviour_def by simp
  obtain rbs fb where sb0: "save lib' out name ''PNG'' (files wb) = (rbs, fb)"
    by (cases "save lib' out name ''PNG'' (files wb)")
  from same sa sb0 have "rbs = None" and stored: "fb name = fa name"
    unfolding same_behaviour_def by (metis fst_conv snd_conv)+
  with sb0 have sb: "save lib' out name ''PNG'' (files wb) = (None, fb)" by simp
  let ?wb1 = "wb\<lparr>files := fb, events := events wb @ [Write name]\<rparr>"
  from Cons.IH [OF rest, of ?wb1] obtain ib wb' where
    run: "loop lib' img1 ps ?wb1 = (None, ib, wb')"
    and ev: "events wb' = events ?wb1 @ map Write (map snd ps)"
    and eq: "\<forall>q\<in>snd ` set ps. files wb' q = files wa' q \<and> files wa' q \<noteq> None"
    by blast
  have whole: "loop lib' img (p # ps) wb = (None, ib, wb')"
    by (simp add: p rb sb run)
  have here: "files wb' name = files wa' name \<and> files wa' name \<noteq> None"
  proof (cases "name \<in> snd ` set ps")
    case True
    with eq show ?thesis by blast
  next
    case False
    from loop_frame_local [OF la rest False] have "files wa' name = fa name" by simp
    moreover from loop_frame_local [OF lb run False] have "files wb' name = fb name" by simp
    moreover from la sa have "fa name \<noteq> None" unfolding save_local_def by blast
    ultimately show ?thesis using stored by simp
  qed
  from whole ev eq here show ?case by (auto simp: p)
qed

subsection \<open>The script, case by case\<close>

lemma names_of_pairs: "map snd (zip sizes filenames) = filenames"
  by (simp add: sizes_def filenames_def)

lemma length_pairs: "length (zip sizes filenames) = 3"
  by (simp add: sizes_def filenames_def)

lemma distinct_filenames: "distinct filenames"
  by (simp add: filenames_def)

lemma upto_three: "n \<le> (3::nat) \<Longrightarrow> n = 0 \<or> n = 1 \<or> n = 2 \<or> n = 3"
  by arith

lemma icon_maker_cases:
  assumes "icon_maker lib w = (r, w')"
  obtains
    (load_raised) e where "Image_open lib (files w) ''Icon.jpeg'' = Inl e" "r = Some e" "w' = w"
  | (loop_raised) img e img' where "Image_open lib (files w) ''Icon.jpeg'' = Inr img"
      "loop lib img (zip sizes filenames) w = (Some e, img', w')" "r = Some e"
  | (completed) img img' w1 where "Image_open lib (files w) ''Icon.jpeg'' = Inr img"
      "loop lib img (zip sizes filenames) w = (None, img', w1)" "r = None"
      "w' = w1\<lparr>events := events w1 @ [Print ''PNG icons generated successfully!'']\<rparr>"
  using assms unfolding icon_maker_def
  by (auto split: sum.splits prod.splits option.splits)

lemma icon_maker_events:
  assumes "icon_maker lib w = (r, w')"
  shows "\<exists>n\<le>3. events w' = events w @ (if r = None then full_run else map Write (take n filenames))
           \<and> (r = None \<longleftrightarrow> n = 3)"
  using assms
proof (cases rule: icon_maker_cases)
  case (load_raised e)
  then show ?thesis by (intro exI [of _ 0]) simp
next
  case (loop_raised img e img')
  from loop_events [OF loop_raised(2)] obtain n where "n \<le> 3"
    "events w' = events w @ map Write (take n filenames)" "n \<noteq> 3"
    unfolding names_of_pairs length_pairs by auto
  with loop_raised(3) show ?thesis
    by (intro exI [of _ n]) simp
next
  case (completed img img' w1)
  have "length filenames = 3" by (simp add: filenames_def)
  with loop_events [OF completed(2)] have "events w1 = events w @ map Write filenames"
    unfolding names_of_pairs length_pairs by auto
  with completed show ?thesis by (intro exI [of _ 3]) (simp add: full_run_def)
qed

lemma new_events_append: "events w' = events w @ es \<Longrightarrow> new_events w w' = es"
  by (simp add: new_events_def)

lemma icon_maker_run:
  assumes sc: "save_contract lib" and run: "icon_maker lib w = (r, w')"
  shows "\<exists>n\<le>3. events w' = events w @ (if r = None then full_run else map Write (take n filenames))
           \<and> (r = None \<longleftrightarrow> n = 3)
           \<and> (\<forall>(sz, name)\<in>set (take n (zip sizes filenames)). \<exists>src src' out.
                 resize lib src sz = Inr (src', out) \<and> files w' name = Some (Encoded ''PNG'' out))
           \<and> (\<forall>q. q \<notin> set (take (Suc n) filenames) \<longrightarrow> files w' q = files w q)"
  using run
proof (cases rule: icon_maker_cases)
  case (load_raised e)
  then show ?thesis by (intro exI [of _ 0]) simp
next
  case (loop_raised img e img')
  have d: "distinct (map snd (zip sizes filenames))"
    by (simp add: names_of_pairs distinct_filenames)
  from loop_run [OF sc d loop_raised(2)] obtain n where "n \<le> length (zip sizes filenames)"
    "events w' = events w @ map Write (take n filenames)" "n \<noteq> length (zip sizes filenames)"
    "\<forall>(sz, name)\<in>set (take n (zip sizes filenames)). \<exists>src src' out.
        resize lib src sz = Inr (src', out) \<and> (resize_copies lib \<longrightarrow> src = img) \<and>
        files w' name = Some (Encoded ''PNG'' out)"
    "\<forall>q. q \<notin> set (take (Suc n) filenames) \<longrightarrow> files w' q = files w q"
    unfolding names_of_pairs by auto
  moreover have "length (zip sizes filenames) = 3" by (simp add: sizes_def filenames_def)
  ultimately show ?thesis using loop_raised(3)
    by (intro exI [of _ n]) fastforce
next
  case (completed img img' w1)
  have d: "distinct (map snd (zip sizes filenames))"
    by (simp add: names_of_pairs distinct_filenames)
  have l: "length (zip sizes filenames) = 3" by (simp add: sizes_def filenames_def)
  from loop_run [OF sc d completed(2)] obtain n where "n \<le> length (zip sizes filenames)"
    "events w1 = events w @ map Write (take n filenames)" "n = length (zip sizes filenames)"
    "\<forall>(sz, name)\<in>set (take n (zip sizes filenames)). \<exists>src src' out.
        resize lib src sz = Inr (src', out) \<and> (resize_copies lib \<longrightarrow> src = img) \<and>
        files w1 name = Some (Encoded ''PNG'' out)"
    "\<forall>q. q \<notin> set (take (Suc n) filenames) \<longrightarrow> files w1 q = files w q"
    unfolding names_of_pairs by auto
  with l completed(3,4) show ?thesis
    by (intro exI [of _ 3]) (fastforce simp: full_run_def filenames_def)
qed

lemma save_raises_at:
  assumes sc: "save_contract lib"
    and k: "k < 3"
    and opened: "Image_open lib (files w) ''Icon.jpeg'' = Inr img"
    and before: "loop lib img (take k (zip sizes filenames)) w = (None, img1, w1)"
    and resized: "resize lib img1 (sizes ! k) = Inr (img2, out)"
    and raised: "save lib out (filenames ! k) ''PNG'' (files w1) = (Some e, fs')"
  shows "icon_maker lib w = (Some e, w1\<lparr>files := fs'\<rparr>) \<and>
         new_events w (w1\<lparr>files := fs'\<rparr>) = map Write (take k filenames) \<and>
         (\<forall>name\<in>set (take k filenames). format_of fs' name = Some ''PNG'')"
proof -
  let ?zs = "zip sizes filenames"
  have len: "length ?zs = 3" by (rule length_pairs)
  with k have split: "?zs = take k ?zs @ (sizes ! k, filenames ! k) # drop (Suc k) ?zs"
    by (metis id_take_nth_drop nth_zip length_zip min_less_iff_conj)
  have "loop lib img ?zs w = loop lib img (take k ?zs @ (sizes ! k, filenames ! k) # drop (Suc k) ?zs) w"
    using split by simp
  also have "\<dots> = (Some e, img2, w1\<lparr>files := fs'\<rparr>)"
    unfolding loop_append by (simp add: before resized raised)
  finally have run: "icon_maker lib w = (Some e, w1\<lparr>files := fs'\<rparr>)"
    by (simp add: icon_maker_def opened)
  have d: "distinct (map snd (take k ?zs))"
    by (metis distinct_filenames distinct_take names_of_pairs take_map)
  have names: "map snd (take k ?zs) = take k filenames"
    by (metis names_of_pairs take_map)
  from loop_run [OF sc d before] k len obtain n where n: "n = k"
    and ev: "events w1 = events w @ map Write (take n (take k filenames))"
    and outs: "\<forall>(sz, name)\<in>set (take n (take k ?zs)). \<exists>src src' out.
        resize lib src sz = Inr (src', out) \<and> (resize_copies lib \<longrightarrow> src = img) \<and>
        files w1 name = Some (Encoded ''PNG'' out)"
    unfolding names by auto
  have events: "new_events w (w1\<lparr>files := fs'\<rparr>) = map Write (take k filenames)"
    using ev n by (simp add: new_events_def)
  have others: "\<forall>q. q \<noteq> filenames ! k \<longrightarrow> fs' q = files w1 q"
    using sc raised unfolding save_contract_def by blast
  have png: "\<forall>name\<in>set (take k filenames). format_of fs' name = Some ''PNG''"
  proof
    fix name assume m: "name \<in> set (take k filenames)"
    then have "name \<in> snd ` set (take k ?zs)" by (metis names set_map)
    with outs n obtain o1 where "files w1 name = Some (Encoded ''PNG'' o1)" by fastforce
    moreover have "name \<noteq> filenames ! k"
      using m k upto_three [of k] by (auto simp: filenames_def)
    ultimately show "format_of fs' name = Some ''PNG''"
      using others by (simp add: format_of_def)
  qed
  from run events png show ?thesis by blast
qed

lemma first_resize_raises:
  assumes "Image_open lib (files w) ''Icon.jpeg'' = Inr img"
    and "resize lib img (16, 16) = Inl e"
  shows "icon_maker lib w = (Some e, w)"
  using assms by (simp add: icon_maker_def sizes_def filenames_def)

lemma undecodable_source:
  assumes "refuses_undecodable lib" and "\<not> source_decodable w"
  shows "\<exists>e. icon_maker lib w = (Some e, w)"
proof (cases "files w ''Icon.jpeg''")
  case None
  then show ?thesis by (simp add: icon_maker_def Image_open_def)
next
  case (Some f)
  with assms(2) obtain bs where f: "f = Raw bs"
    by (cases f) (simp_all add: source_decodable_def)
  from Some f have opened: "Image_open lib (files w) ''Icon.jpeg'' = decode lib (Raw bs)"
    by (simp add: Image_open_def)
  from assms(1) consider
      (eager) e where "decode lib (Raw bs) = Inl e"
    | (lazy) img where "decode lib (Raw bs) = Inr img" "\<forall>sz. \<exists>e. resize lib img sz = Inl e"
    unfolding refuses_undecodable_def by blast
  then show ?thesis
  proof cases
    case (eager e)
    with opened show ?thesis by (simp add: icon_maker_def)
  next
    case (lazy img)
    from lazy(2) obtain e where "resize lib img (16, 16) = Inl e" by blast
    with opened lazy(1) first_resize_raises [of lib w img e] show ?thesis by auto
  qed
qed

lemma run_again:
  assumes la: "save_local lib" and lb: "save_local lib'" and same: "same_behaviour lib lib'"
    and first: "icon_maker lib w = (None, w1)"
    and source: "files v ''Icon.jpeg'' = files w ''Icon.jpeg''"
  shows "\<exists>v1. icon_maker lib' v = (None, v1) \<and> new_events v v1 = full_run \<and>
           (\<forall>name\<in>set filenames. files v1 name = files w1 name \<and> files w1 name \<noteq> None) \<and>
           (\<forall>q. q \<notin> set filenames \<longrightarrow> files v1 q = files v q) \<and>
           (\<forall>q. q \<notin> set filenames \<longrightarrow> files w1 q = files w q)"
proof -
  from first obtain img ia wa where oa: "Image_open lib (files w) ''Icon.jpeg'' = Inr img"
    and ra: "loop lib img (zip sizes filenames) w = (None, ia, wa)"
    and wa: "w1 = wa\<lparr>events := events wa @ [Print ''PNG icons generated successfully!'']\<rparr>"
    by (cases rule: icon_maker_cases) simp_all
  have names: "snd ` set (zip sizes filenames) = set filenames"
    by (metis names_of_pairs set_map)
  from same have d: "decode lib' = decode lib" unfolding same_behaviour_def by blast
  have "Image_open lib' (files v) ''Icon.jpeg'' = Image_open lib (files w) ''Icon.jpeg''"
    by (simp only: Image_open_def d source)
  with oa have ob: "Image_open lib' (files v) ''Icon.jpeg'' = Inr img" by simp
  from loop_again [OF la lb same ra, of v] obtain ib vb where
    rb: "loop lib' img (zip sizes filenames) v = (None, ib, vb)"
    and ev: "events vb = events v @ map Write filenames"
    and eq: "\<forall>q\<in>set filenames. files vb q = files wa q \<and> files wa q \<noteq> None"
    unfolding names names_of_pairs by blast
  let ?v1 = "vb\<lparr>events := events vb @ [Print ''PNG icons generated successfully!'']\<rparr>"
  have run: "icon_maker lib' v = (None, ?v1)"
    by (simp add: icon_maker_def ob rb)
  have events: "new_events v ?v1 = full_run"
    by (simp add: new_events_def ev full_run_def)
  have same_files: "\<forall>name\<in>set filenames. files ?v1 name = files w1 name \<and> files w1 name \<noteq> None"
    using eq by (simp add: wa)
  have others: "\<forall>q. q \<notin> set filenames \<longrightarrow> files ?v1 q = files v q"
    using loop_frame_local [OF lb rb] names by simp
  have first_others: "\<forall>q. q \<notin> set filenames \<longrightarrow> files w1 q = files w q"
    using loop_frame_local [OF la ra] names by (simp add: wa)
  from run events same_files others first_others show ?thesis by blast
qed

subsection \<open>Runs of the library instance\<close>

lemma rgb_run_ends: "fst (icon_maker (sim_pil []) (desk ''RGB'')) = None"
  by (simp add: icon_maker_def Image_open_def desk_def sim_pil_def sim_decode_def sim_resize_def
      sim_save_def png_modes_def photo_def nearest_def sizes_def filenames_def)

lemma rgb_run: "icon_maker (sim_pil []) (desk ''RGB'') = (None, snd (icon_maker (sim_pil []) (desk ''RGB'')))"
  using rgb_run_ends by (metis prod.collapse)

lemma cmyk_run: "icon_maker (sim_pil []) (desk ''CMYK'') = (Some OSError, desk ''CMYK'')"
  by (simp add: icon_maker_def Image_open_def desk_def sim_pil_def sim_decode_def sim_resize_def
      sim_save_def png_modes_def photo_def nearest_def sizes_def filenames_def)

lemma locked_run_raises: "fst (icon_maker (sim_pil [''icon48.png'']) (desk ''RGB'')) = Some OSError"
  by (simp add: icon_maker_def Image_open_def desk_def sim_pil_def sim_decode_def sim_resize_def
      sim_save_def png_modes_def photo_def nearest_def sizes_def filenames_def)

lemma locked_run:
  "icon_maker (sim_pil [''icon48.png'']) (desk ''RGB'') =
     (Some OSError, snd (icon_maker (sim_pil [''icon48.png'']) (desk ''RGB'')))"
  using locked_run_raises by (metis prod.collapse)

lemma locked_run_events:
  "new_events (desk ''RGB'') (snd (icon_maker (sim_pil [''icon48.png'']) (desk ''RGB''))) =
     [Write ''icon16.png'']"
  by (simp add: icon_maker_def Image_open_def desk_def sim_pil_def sim_decode_def sim_resize_def
      sim_save_def png_modes_def photo_def nearest_def sizes_def filenames_def new_events_def)

lemma rgb_run_events:
  "new_events (desk ''RGB'') (snd (icon_maker (sim_pil []) (desk ''RGB''))) =
     [Write ''icon16.png'', Write ''icon48.png'', Write ''icon128.png'',
      Print ''PNG icons generated successfully!'']"
  by (simp add: icon_maker_def Image_open_def desk_def sim_pil_def sim_decode_def sim_resize_def
      sim_save_def png_modes_def photo_def nearest_def sizes_def filenames_def new_events_def)

lemma first_locked_run:
  "icon_maker (sim_pil [''icon16.png'']) (desk ''RGB'') = (Some OSError, desk ''RGB'')"
  by (simp add: icon_maker_def Image_open_def desk_def sim_pil_def sim_decode_def sim_resize_def
      sim_save_def png_modes_def photo_def nearest_def sizes_def filenames_def)

lemma rgb_loop:
  "loop (sim_pil []) (photo ''RGB'') (zip sizes filenames) (desk ''RGB'') =
     (None, fst (snd (loop (sim_pil []) (photo ''RGB'') (zip sizes filenames) (desk ''RGB''))),
      snd (snd (loop (sim_pil []) (photo ''RGB'') (zip sizes filenames) (desk ''RGB''))))"
proof -
  have "fst (loop (sim_pil []) (photo ''RGB'') (zip sizes filenames) (desk ''RGB'')) = None"
    by (simp add: desk_def sim_pil_def sim_resize_def
      sim_save_def png_modes_def photo_def nearest_def sizes_def filenames_def)
  then show ?thesis by (metis prod.collapse)
qed

lemma locked_prefix:
  "loop (sim_pil [''icon48.png'']) (photo ''RGB'') (take 1 (zip sizes filenames)) (desk ''RGB'') =
     (None, photo ''RGB'',
      \<lparr>files = [''Icon.jpeg'' \<mapsto> Encoded ''JPEG'' (photo ''RGB''),
                ''icon16.png'' \<mapsto> Encoded ''PNG'' (nearest (photo ''RGB'') (16, 16))],
       events = [Write ''icon16.png'']\<rparr>)"
  by (simp add: desk_def sim_pil_def sim_resize_def sim_save_def png_modes_def photo_def
      nearest_def sizes_def filenames_def)

lemma rgb_loop_events:
  "new_events (desk ''RGB'')
     (snd (snd (loop (sim_pil []) (photo ''RGB'') (zip sizes filenames) (desk ''RGB'')))) =
     [Write ''icon16.png'', Write ''icon48.png'', Write ''icon128.png'']"
  by (simp add: desk_def sim_pil_def sim_resize_def sim_save_def png_modes_def photo_def
      nearest_def sizes_def filenames_def new_events_def)

lemma short_names_loop:
  "loop (sim_pil []) (photo ''RGB'') (zip sizes [''a.png'', ''b.png'']) (desk ''RGB'') =
     (None, fst (snd (loop (sim_pil []) (photo ''RGB'') (zip sizes [''a.png'', ''b.png'']) (desk ''RGB''))),
      snd (snd (loop (sim_pil []) (photo ''RGB'') (zip sizes [''a.png'', ''b.png'']) (desk ''RGB''))))"
proof -
  have "fst (loop (sim_pil []) (photo ''RGB'') (zip sizes [''a.png'', ''b.png'']) (desk ''RGB'')) = None"
    by (simp add: desk_def sim_pil_def sim_resize_def
      sim_save_def png_modes_def photo_def nearest_def sizes_def)
  then show ?thesis by (metis prod.collapse)
qed

lemma short_sizes_loop:
  "loop (sim_pil []) (photo ''RGB'') (zip [(16, 16)] filenames) (desk ''RGB'') =
     (None, fst (snd (loop (sim_pil []) (photo ''RGB'') (zip [(16, 16)] filenames) (desk ''RGB''))),
      snd (snd (loop (sim_pil []) (photo ''RGB'') (zip [(16, 16)] filenames) (desk ''RGB''))))"
proof -
  have "fst (loop (sim_pil []) (photo ''RGB'') (zip [(16, 16)] filenames) (desk ''RGB'')) = None"
    by (simp add: desk_def sim_pil_def sim_resize_def
      sim_save_def png_modes_def photo_def nearest_def filenames_def)
  then show ?thesis by (metis prod.collapse)
qed

lemma stale_source: "files stale_desk ''Icon.jpeg'' = files (desk ''RGB'') ''Icon.jpeg''"
  by (simp add: stale_desk_def desk_def)

lemma locked_rerun_raises:
  "\<not> same_behaviour (sim_pil []) (sim_pil [''icon48.png'']) \<and>
   fst (icon_maker (sim_pil [''icon48.png'']) (snd (icon_maker (sim_pil []) (desk ''RGB'')))) =
     Some OSError"
proof -
  have "fst (save (sim_pil [''icon48.png'']) (photo ''RGB'') ''icon48.png'' ''PNG'' Map.empty) \<noteq>
        fst (save (sim_pil []) (photo ''RGB'') ''icon48.png'' ''PNG'' Map.empty)"
    by (simp add: sim_pil_def sim_save_def png_modes_def photo_def)
  then have a: "\<not> same_behaviour (sim_pil []) (sim_pil [''icon48.png''])"
    unfolding same_behaviour_def by blast
  have b: "fst (icon_maker (sim_pil [''icon48.png'']) (snd (icon_maker (sim_pil []) (desk ''RGB'')))) =
     Some OSError"
    by (simp add: icon_maker_def Image_open_def desk_def sim_pil_def sim_decode_def sim_resize_def
      sim_save_def png_modes_def photo_def nearest_def sizes_def filenames_def)
  from a b show ?thesis by (rule conjI)
qed

subsection \<open>A source that cannot be loaded\<close>

text \<open>
  C3. If the source file is missing, unreadable or not a valid image, the load fails and
  the run ends with that uncaught error (exit status 1) before any output is produced:
  the world is left as it was, no file written and nothing printed. A missing file is a
  \<open>FileNotFoundError\<close>; any error raised by the open ends the run there; and where the
  open is lazy and hands out an image whose pixels cannot be read, the first resize
  raises and the run ends in the same way. With a library that refuses what holds no
  image, every source that is missing or holds no image ends the run like this.
\<close>

theorem bad_source_leaves_world:
  "(files w ''Icon.jpeg'' = None \<longrightarrow> icon_maker lib w = (Some FileNotFoundError, w)) \<and>
   (Image_open lib (files w) ''Icon.jpeg'' = Inl e \<longrightarrow> icon_maker lib w = (Some e, w)) \<and>
   (Image_open lib (files w) ''Icon.jpeg'' = Inr img \<and> resize lib img (16, 16) = Inl e \<longrightarrow>
      icon_maker lib w = (Some e, w)) \<and>
   (refuses_undecodable lib \<and> \<not> source_decodable w \<longrightarrow>
      (\<exists>e'. icon_maker lib w = (Some e', w)) \<and>
      exit_code (fst (icon_maker lib w)) = 1 \<and>
      snd (icon_maker lib w) = w \<and>
      new_events w (snd (icon_maker lib w)) = [])"
proof -
  have a: "files w ''Icon.jpeg'' = None \<longrightarrow> icon_maker lib w = (Some FileNotFoundError, w)"
    by (simp add: icon_maker_def Image_open_def)
  have b: "Image_open lib (files w) ''Icon.jpeg'' = Inl e \<longrightarrow> icon_maker lib w = (Some e, w)"
    by (simp add: icon_maker_def)
  have c: "Image_open lib (files w) ''Icon.jpeg'' = Inr img \<and> resize lib img (16, 16) = Inl e \<longrightarrow>
      icon_maker lib w = (Some e, w)"
    using first_resize_raises by blast
  have d: "refuses_undecodable lib \<and> \<not> source_decodable w \<longrightarrow>
      (\<exists>e'. icon_maker lib w = (Some e', w)) \<and>
      exit_code (fst (icon_maker lib w)) = 1 \<and>
      snd (icon_maker lib w) = w \<and>
      new_events w (snd (icon_maker lib w)) = []"
  proof
    assume "refuses_undecodable lib \<and> \<not> source_decodable w"
    then obtain e' where "icon_maker lib w = (Some e', w)"
      using undecodable_source by blast
    then show "(\<exists>e'. icon_maker lib w = (Some e', w)) \<and>
      exit_code (fst (icon_maker lib w)) = 1 \<and>
      snd (icon_maker lib w) = w \<and>
      new_events w (snd (icon_maker lib w)) = []"
      by (simp add: exit_code_def new_events_def)
  qed
  from a b c d show ?thesis by blast
qed

theorem bad_source_leaves_world_witness:
  "icon_maker (sim_pil []) empty_desk = (Some FileNotFoundError, empty_desk) \<and>
   icon_maker (sim_pil []) junk_desk = (Some UnidentifiedImageError, junk_desk) \<and>
   Image_open lazy_pil (files cut_desk) ''Icon.jpeg'' = Inr header_only \<and>
   icon_maker lazy_pil cut_desk = (Some OSError, cut_desk) \<and>
   exit_code (fst (icon_maker lazy_pil cut_desk)) = 1 \<and>
   new_events cut_desk (snd (icon_maker lazy_pil cut_desk)) = []"
proof -
  have missing: "files empty_desk ''Icon.jpeg'' = None"
    by (simp add: empty_desk_def)
  have junk: "Image_open (sim_pil []) (files junk_desk) ''Icon.jpeg'' = Inl UnidentifiedImageError"
    by (simp add: Image_open_def junk_desk_def sim_pil_def sim_decode_def)
  have opened: "Image_open lazy_pil (files cut_desk) ''Icon.jpeg'' = Inr header_only"
    by (simp add: Image_open_def cut_desk_def lazy_pil_def lazy_decode_def)
  have raised: "resize lazy_pil header_only (16, 16) = Inl OSError"
    by (simp add: lazy_pil_def lazy_resize_def header_only_def)
  have bad: "\<not> source_decodable cut_desk"
    by (simp add: source_decodable_def cut_desk_def)
  from bad_source_leaves_world [of empty_desk "sim_pil []"] missing
  have a: "icon_maker (sim_pil []) empty_desk = (Some FileNotFoundError, empty_desk)"
    by blast
  from bad_source_leaves_world [of junk_desk "sim_pil []" UnidentifiedImageError] junk
  have b: "icon_maker (sim_pil []) junk_desk = (Some UnidentifiedImageError, junk_desk)"
    by blast
  from bad_source_leaves_world [of cut_desk lazy_pil OSError header_only] opened raised
  have c: "icon_maker lazy_pil cut_desk = (Some OSError, cut_desk)"
    by blast
  from bad_source_leaves_world [of cut_desk lazy_pil] lazy_refuses_undecodable bad
  have d: "exit_code (fst (icon_maker lazy_pil cut_desk)) = 1"
    and e: "new_events cut_desk (snd (icon_maker lazy_pil cut_desk)) = []"
    by blast+
  from a b opened c d e show ?thesis by blast
qed

subsection \<open>Sizes of the outputs\<close>

text \<open>
  C1. Each resized output has exactly its target dimensions, whatever the dimensions of
  the source: every output file a run has written (\<open>icon16.png\<close>, \<open>icon48.png\<close>,
  \<open>icon128.png\<close>) decodes to a bitmap of the size paired with its name, 16 by 16, 48 by 48
  and 128 by 128, and a run that reaches the end has written all three. The library's
  \<open>resize\<close> returns a bitmap of the size it is asked for; the script asks for the target
  box itself and derives nothing from the source's dimensions.
\<close>

theorem outputs_have_target_size:
  assumes "resize_exact lib" and "save_contract lib" and "icon_maker lib w = (r, w')"
  shows "(\<forall>(sz, name)\<in>set (zip sizes filenames).
            Write name \<in> set (new_events w w') \<longrightarrow> image_size_of (files w') name = Some sz) \<and>
         (r = None \<longrightarrow>
            image_size_of (files w') ''icon16.png'' = Some (16, 16) \<and>
            image_size_of (files w') ''icon48.png'' = Some (48, 48) \<and>
            image_size_of (files w') ''icon128.png'' = Some (128, 128))"
proof -
  from icon_maker_run [OF assms(2,3)] obtain n where n: "n \<le> 3"
    and ev: "events w' = events w @ (if r = None then full_run else map Write (take n filenames))"
    and fin: "r = None \<longleftrightarrow> n = 3"
    and outs: "\<forall>(sz, name)\<in>set (take n (zip sizes filenames)). \<exists>src src' out.
                 resize lib src sz = Inr (src', out) \<and> files w' name = Some (Encoded ''PNG'' out)"
    by blast
  have sized: "\<forall>(sz, name)\<in>set (take n (zip sizes filenames)). image_size_of (files w') name = Some sz"
    using outs assms(1) unfolding resize_exact_def image_size_of_def by fastforce
  have new: "new_events w w' = (if r = None then full_run else map Write (take n filenames))"
    using ev by (rule new_events_append)
  have written: "\<forall>(sz, name)\<in>set (zip sizes filenames).
      Write name \<in> set (new_events w w') \<longrightarrow> (sz, name) \<in> set (take n (zip sizes filenames))"
    using upto_three [OF n] fin unfolding new
    by (auto simp: full_run_def sizes_def filenames_def)
  have part1: "\<forall>(sz, name)\<in>set (zip sizes filenames).
            Write name \<in> set (new_events w w') \<longrightarrow> image_size_of (files w') name = Some sz"
    using written sized by fastforce
  have part2: "r = None \<longrightarrow>
            image_size_of (files w') ''icon16.png'' = Some (16, 16) \<and>
            image_size_of (files w') ''icon48.png'' = Some (48, 48) \<and>
            image_size_of (files w') ''icon128.png'' = Some (128, 128)"
    using sized fin by (auto simp: sizes_def filenames_def)
  from part1 part2 show ?thesis by (rule conjI)
qed

theorem outputs_have_target_size_witness:
  "im_size (photo ''RGB'') = (4, 2) \<and>
   image_size_of (files (snd (icon_maker (sim_pil []) (desk ''RGB'')))) ''icon16.png'' = Some (16, 16) \<and>
   image_size_of (files (snd (icon_maker (sim_pil []) (desk ''RGB'')))) ''icon48.png'' = Some (48, 48) \<and>
   image_size_of (files (snd (icon_maker (sim_pil []) (desk ''RGB'')))) ''icon128.png'' = Some (128, 128)"
proof -
  have src: "im_size (photo ''RGB'') = (4, 2)" by (simp add: photo_def)
  from outputs_have_target_size [OF sim_resize_exact sim_save_contract rgb_run]
  have "image_size_of (files (snd (icon_maker (sim_pil []) (desk ''RGB'')))) ''icon16.png'' = Some (16, 16) \<and>
   image_size_of (files (snd (icon_maker (sim_pil []) (desk ''RGB'')))) ''icon48.png'' = Some (48, 48) \<and>
   image_size_of (files (snd (icon_maker (sim_pil []) (desk ''RGB'')))) ''icon128.png'' = Some (128, 128)"
    by blast
  with src show ?thesis by (rule conjI)
qed

subsection \<open>Format of the outputs\<close>

text \<open>
  C4. Every output file written by the loop is a PNG file: each save is made with the
  format \<open>''PNG''\<close>, so whatever a run has written, to the end or not, is one of the three
  declared filenames and holds a PNG encoding.
\<close>

theorem outputs_are_png:
  assumes "save_contract lib" and "icon_maker lib w = (r, w')"
  shows "\<forall>name. Write name \<in> set (new_events w w') \<longrightarrow>
           name \<in> set filenames \<and> format_of (files w') name = Some ''PNG''"
proof -
  from icon_maker_run [OF assms] obtain n where n: "n \<le> 3"
    and ev: "events w' = events w @ (if r = None then full_run else map Write (take n filenames))"
    and fin: "r = None \<longleftrightarrow> n = 3"
    and outs: "\<forall>(sz, name)\<in>set (take n (zip sizes filenames)). \<exists>src src' out.
                 resize lib src sz = Inr (src', out) \<and> files w' name = Some (Encoded ''PNG'' out)"
    by blast
  have png: "\<forall>(sz, name)\<in>set (take n (zip sizes filenames)). format_of (files w') name = Some ''PNG''"
    using outs unfolding format_of_def by fastforce
  have new: "new_events w w' = (if r = None then full_run else map Write (take n filenames))"
    using ev by (rule new_events_append)
  have written: "\<forall>name. Write name \<in> set (new_events w w') \<longrightarrow>
      name \<in> set filenames \<and> (\<exists>sz. (sz, name) \<in> set (take n (zip sizes filenames)))"
    using upto_three [OF n] fin unfolding new
    by (auto simp: full_run_def sizes_def filenames_def)
  from written png show ?thesis by fastforce
qed

theorem outputs_are_png_witness:
  "Write ''icon16.png'' \<in> set (new_events (desk ''RGB'') (snd (icon_maker (sim_pil [''icon48.png'']) (desk ''RGB'')))) \<and>
   format_of (files (snd (icon_maker (sim_pil [''icon48.png'']) (desk ''RGB'')))) ''icon16.png'' = Some ''PNG''"
proof -
  have a: "Write ''icon16.png'' \<in> set (new_events (desk ''RGB'') (snd (icon_maker (sim_pil [''icon48.png'']) (desk ''RGB''))))"
    by (simp add: locked_run_events)
  from outputs_are_png [OF sim_save_contract locked_run] a
  have "format_of (files (snd (icon_maker (sim_pil [''icon48.png'']) (desk ''RGB'')))) ''icon16.png'' = Some ''PNG''"
    by blast
  with a show ?thesis by (rule conjI)
qed

subsection \<open>The files a run produces\<close>

text \<open>
  C2, counterexample. Not every valid JPEG input yields the three output files: a valid
  JPEG does not make the saves succeed. A CMYK JPEG is decoded and resized, and the PNG
  encoder then refuses its colour mode; the run ends with that error and no output (a
  directory that cannot be written does the same).
\<close>

theorem valid_jpeg_without_outputs:
  "Image_open (sim_pil []) (files (desk ''CMYK'')) ''Icon.jpeg'' = Inr (photo ''CMYK'') \<and>
   icon_maker (sim_pil []) (desk ''CMYK'') = (Some OSError, desk ''CMYK'') \<and>
   new_events (desk ''CMYK'') (snd (icon_maker (sim_pil []) (desk ''CMYK''))) = [] \<and>
   files (snd (icon_maker (sim_pil []) (desk ''CMYK''))) ''icon16.png'' = None \<and>
   files (snd (icon_maker (sim_pil []) (desk ''CMYK''))) ''icon48.png'' = None \<and>
   files (snd (icon_maker (sim_pil []) (desk ''CMYK''))) ''icon128.png'' = None"
  by (simp add: cmyk_run new_events_def)
    (simp add: Image_open_def desk_def sim_pil_def sim_decode_def)

text \<open>
  C2, amended. For every valid JPEG input at the fixed path on which the run reaches its
  end (the load, every resize and every save return), the run writes exactly three output
  files, \<open>icon16.png\<close>, \<open>icon48.png\<close> and \<open>icon128.png\<close> in this order, each a PNG file,
  and leaves every other path as it was.
\<close>

theorem three_outputs_when_run_completes:
  assumes "save_contract lib" and "icon_maker lib w = (None, w')"
  shows "new_events w w' =
           [Write ''icon16.png'', Write ''icon48.png'', Write ''icon128.png'',
            Print ''PNG icons generated successfully!''] \<and>
         (\<forall>name\<in>set filenames. format_of (files w') name = Some ''PNG'') \<and>
         (\<forall>q. q \<notin> set filenames \<longrightarrow> files w' q = files w q)"
proof -
  from icon_maker_run [OF assms] obtain n where n: "n = 3"
    and ev: "events w' = events w @ full_run"
    and outs: "\<forall>(sz, name)\<in>set (take n (zip sizes filenames)). \<exists>src src' out.
                 resize lib src sz = Inr (src', out) \<and> files w' name = Some (Encoded ''PNG'' out)"
    and frame: "\<forall>q. q \<notin> set (take (Suc n) filenames) \<longrightarrow> files w' q = files w q"
    by auto
  have a: "new_events w w' =
           [Write ''icon16.png'', Write ''icon48.png'', Write ''icon128.png'',
            Print ''PNG icons generated successfully!'']"
    using new_events_append [OF ev] by (simp add: full_run_def filenames_def)
  have b: "\<forall>name\<in>set filenames. format_of (files w') name = Some ''PNG''"
    using outs unfolding n format_of_def by (auto simp: sizes_def filenames_def)
  have c: "\<forall>q. q \<notin> set filenames \<longrightarrow> files w' q = files w q"
    using frame unfolding n by (simp add: filenames_def)
  from a b c show ?thesis by blast
qed

theorem three_outputs_when_run_completes_witness:
  "new_events (desk ''RGB'') (snd (icon_maker (sim_pil []) (desk ''RGB''))) =
     [Write ''icon16.png'', Write ''icon48.png'', Write ''icon128.png'',
      Print ''PNG icons generated successfully!''] \<and>
   format_of (files (snd (icon_maker (sim_pil []) (desk ''RGB'')))) ''icon128.png'' = Some ''PNG'' \<and>
   files (snd (icon_maker (sim_pil []) (desk ''RGB''))) ''Icon.jpeg'' = files (desk ''RGB'') ''Icon.jpeg''"
proof -
  note t = three_outputs_when_run_completes [OF sim_save_contract rgb_run]
  from t have a: "new_events (desk ''RGB'') (snd (icon_maker (sim_pil []) (desk ''RGB''))) =
     [Write ''icon16.png'', Write ''icon48.png'', Write ''icon128.png'',
      Print ''PNG icons generated successfully!'']" by blast
  have "''icon128.png'' \<in> set filenames" by (simp add: filenames_def)
  with t have b: "format_of (files (snd (icon_maker (sim_pil []) (desk ''RGB'')))) ''icon128.png'' = Some ''PNG''"
    by blast
  have "''Icon.jpeg'' \<notin> set filenames" by (simp add: filenames_def)
  with t have c: "files (snd (icon_maker (sim_pil []) (desk ''RGB''))) ''Icon.jpeg'' = files (desk ''RGB'') ''Icon.jpeg''"
    by blast
  from a b c show ?thesis by blast
qed

subsection \<open>Pairing sizes with filenames\<close>

text \<open>
  C5. The sizes and the filenames are two fixed sequences of the same length, three
  each, paired by position. For any two sequences the loop pairs them up to the shorter
  one and raises nothing for the difference in length: a run writes the first \<open>n\<close>
  filenames, with \<open>n\<close> at most \<open>min (length sizes) (length filenames)\<close>, and it ends
  without an error exactly when \<open>n\<close> is that minimum. With distinct filenames each of the
  \<open>n\<close> files then holds a PNG of the size at its position, and a filename beyond the
  shorter length gets no file: a run to the end produces exactly the minimum number of
  outputs.
\<close>

theorem zip_truncates_to_shorter:
  assumes "loop lib img (zip ss ns) w = (r, img', w')"
  shows "length sizes = length filenames \<and> length filenames = 3 \<and>
         (\<exists>n\<le>min (length ss) (length ns).
            new_events w w' = map Write (take n ns) \<and>
            (r = None \<longleftrightarrow> n = min (length ss) (length ns)) \<and>
            (save_contract lib \<and> resize_exact lib \<and> distinct ns \<longrightarrow>
               (\<forall>i<n. image_size_of (files w') (ns ! i) = Some (ss ! i) \<and>
                      format_of (files w') (ns ! i) = Some ''PNG'') \<and>
               (\<forall>q. q \<notin> set (take (Suc n) ns) \<longrightarrow> files w' q = files w q) \<and>
               (r = None \<longrightarrow> (\<forall>q. q \<notin> set (take n ns) \<longrightarrow> files w' q = files w q))))"
proof -
  let ?m = "min (length ss) (length ns)"
  have a: "length sizes = length filenames \<and> length filenames = 3"
    by (simp add: sizes_def filenames_def)
  have b: "\<exists>n\<le>?m.
            new_events w w' = map Write (take n ns) \<and>
            (r = None \<longleftrightarrow> n = ?m) \<and>
            (save_contract lib \<and> resize_exact lib \<and> distinct ns \<longrightarrow>
               (\<forall>i<n. image_size_of (files w') (ns ! i) = Some (ss ! i) \<and>
                      format_of (files w') (ns ! i) = Some ''PNG'') \<and>
               (\<forall>q. q \<notin> set (take (Suc n) ns) \<longrightarrow> files w' q = files w q) \<and>
               (r = None \<longrightarrow> (\<forall>q. q \<notin> set (take n ns) \<longrightarrow> files w' q = files w q)))"
  proof (cases "save_contract lib \<and> resize_exact lib \<and> distinct ns")
    case True
    then have sc: "save_contract lib" and re: "resize_exact lib" and d: "distinct ns" by blast+
    from loop_zip_files [OF sc re d assms] obtain n where "n \<le> ?m"
      "events w' = events w @ map Write (take n ns)" "r = None \<longleftrightarrow> n = ?m"
      "\<forall>i<n. image_size_of (files w') (ns ! i) = Some (ss ! i) \<and>
                      format_of (files w') (ns ! i) = Some ''PNG''"
      "\<forall>q. q \<notin> set (take (Suc n) ns) \<longrightarrow> files w' q = files w q"
      "r = None \<longrightarrow> (\<forall>q. q \<notin> set (take n ns) \<longrightarrow> files w' q = files w q)"
      by blast
    then show ?thesis using new_events_append by (intro exI [of _ n]) simp
  next
    case False
    from loop_events [OF assms] obtain n where n: "n \<le> ?m"
      and ev: "events w' = events w @ map Write (take n (take ?m ns))"
      and fin: "r = None \<longleftrightarrow> n = ?m"
      unfolding names_of_zip by auto
    from n have "take n (take ?m ns) = take n ns" by (simp add: min_absorb1)
    with ev have "new_events w w' = map Write (take n ns)" by (simp add: new_events_append)
    with n fin False show ?thesis by blast
  qed
  from a b show ?thesis by blast
qed

theorem zip_truncates_to_shorter_witness:
  "new_events (desk ''RGB'')
     (snd (snd (loop (sim_pil []) (photo ''RGB'') (zip sizes [''a.png'', ''b.png'']) (desk ''RGB'')))) =
     [Write ''a.png'', Write ''b.png''] \<and>
   image_size_of
     (files (snd (snd (loop (sim_pil []) (photo ''RGB'') (zip sizes [''a.png'', ''b.png'']) (desk ''RGB'')))))
     ''a.png'' = Some (16, 16) \<and>
   image_size_of
     (files (snd (snd (loop (sim_pil []) (photo ''RGB'') (zip sizes [''a.png'', ''b.png'']) (desk ''RGB'')))))
     ''b.png'' = Some (48, 48) \<and>
   new_events (desk ''RGB'')
     (snd (snd (loop (sim_pil []) (photo ''RGB'') (zip [(16, 16)] filenames) (desk ''RGB'')))) =
     [Write ''icon16.png''] \<and>
   image_size_of
     (files (snd (snd (loop (sim_pil []) (photo ''RGB'') (zip [(16, 16)] filenames) (desk ''RGB'')))))
     ''icon16.png'' = Some (16, 16) \<and>
   files (snd (snd (loop (sim_pil []) (photo ''RGB'') (zip [(16, 16)] filenames) (desk ''RGB''))))
     ''icon48.png'' = None"
proof -
  let ?W = "snd (snd (loop (sim_pil []) (photo ''RGB'') (zip sizes [''a.png'', ''b.png'']) (desk ''RGB'')))"
  let ?V = "snd (snd (loop (sim_pil []) (photo ''RGB'') (zip [(16, 16)] filenames) (desk ''RGB'')))"
  note c = sim_save_contract [of "[]"] sim_resize_exact [of "[]"]
  have d1: "distinct [''a.png'', ''b.png'']" by simp
  from zip_truncates_to_shorter [OF short_names_loop] c d1
  obtain n where n: "n = min (length sizes) (length [''a.png'', ''b.png''])"
    and ev: "new_events (desk ''RGB'') ?W = map Write (take n [''a.png'', ''b.png''])"
    and fs: "\<forall>i<n. image_size_of (files ?W) ([''a.png'', ''b.png''] ! i) = Some (sizes ! i)"
    by blast
  from n have n2: "n = 2" by (simp add: sizes_def)
  from ev have a: "new_events (desk ''RGB'') ?W = [Write ''a.png'', Write ''b.png'']"
    unfolding n2 by simp
  from fs [rule_format, of 0] have b: "image_size_of (files ?W) ''a.png'' = Some (16, 16)"
    unfolding n2 by (simp add: sizes_def)
  from fs [rule_format, of 1] have b': "image_size_of (files ?W) ''b.png'' = Some (48, 48)"
    unfolding n2 by (simp add: sizes_def)
  from zip_truncates_to_shorter [OF short_sizes_loop] c distinct_filenames
  obtain k where k: "k = min (length [(16, 16) :: int \<times> int]) (length filenames)"
    and ev': "new_events (desk ''RGB'') ?V = map Write (take k filenames)"
    and fs': "\<forall>i<k. image_size_of (files ?V) (filenames ! i) = Some ([(16, 16)] ! i)"
    and rest: "\<forall>q. q \<notin> set (take k filenames) \<longrightarrow> files ?V q = files (desk ''RGB'') q"
    by blast
  from k have k1: "k = 1" by (simp add: filenames_def)
  from ev' have e: "new_events (desk ''RGB'') ?V = [Write ''icon16.png'']"
    unfolding k1 by (simp add: filenames_def)
  from fs' [rule_format, of 0] have f: "image_size_of (files ?V) ''icon16.png'' = Some (16, 16)"
    unfolding k1 by (simp add: filenames_def)
  from rest [rule_format, of "''icon48.png''"] have g: "files ?V ''icon48.png'' = None"
    unfolding k1 by (simp add: filenames_def desk_def)
  from a b b' e f g show ?thesis by blast
qed

subsection \<open>Running the script again\<close>

text \<open>
  C6. Two runs in a row on the same unchanged source, against a library that behaves
  alike in both (a fixed, deterministic version that overwrites silently). When the first
  run reaches its end, so does the second: it writes the same three filenames in the same
  order, over the files the first run left there, and the files on disk after it are the
  files after the first run, content for content. More generally the three outputs depend
  on the source file alone: from any world with the same source, whatever it holds under
  the output names, a run leaves the same three outputs and touches nothing else.
\<close>

theorem rerun_overwrites_with_same_outputs:
  assumes "save_local lib" and "save_local lib'" and "same_behaviour lib lib'"
    and "icon_maker lib w = (None, w1)"
  shows "(\<exists>w2. icon_maker lib' w1 = (None, w2) \<and> files w2 = files w1 \<and>
            new_events w1 w2 = new_events w w1 \<and> new_events w w1 = full_run \<and>
            (\<forall>name\<in>set filenames. files w1 name \<noteq> None)) \<and>
         (files v ''Icon.jpeg'' = files w ''Icon.jpeg'' \<longrightarrow>
            (\<exists>v1. icon_maker lib' v = (None, v1) \<and> new_events v v1 = full_run \<and>
               (\<forall>name\<in>set filenames. files v1 name = files w1 name) \<and>
               (\<forall>q. q \<notin> set filenames \<longrightarrow> files v1 q = files v q)))"
proof (rule conjI)
  have src: "''Icon.jpeg'' \<notin> set filenames" by (simp add: filenames_def)
  from icon_maker_events [OF assms(4)] have e1: "new_events w w1 = full_run"
    by (auto simp: new_events_append)
  from run_again [OF assms refl] have "\<forall>q. q \<notin> set filenames \<longrightarrow> files w1 q = files w q"
    by blast
  with src have "files w1 ''Icon.jpeg'' = files w ''Icon.jpeg''" by blast
  from run_again [OF assms this] obtain w2 where run: "icon_maker lib' w1 = (None, w2)"
    and ev: "new_events w1 w2 = full_run"
    and eq: "\<forall>name\<in>set filenames. files w2 name = files w1 name \<and> files w1 name \<noteq> None"
    and others: "\<forall>q. q \<notin> set filenames \<longrightarrow> files w2 q = files w1 q"
    by blast
  have "files w2 q = files w1 q" for q
    using eq others by (cases "q \<in> set filenames") auto
  then have "files w2 = files w1" by (rule ext)
  with run ev e1 eq
  show "\<exists>w2. icon_maker lib' w1 = (None, w2) \<and> files w2 = files w1 \<and>
            new_events w1 w2 = new_events w w1 \<and> new_events w w1 = full_run \<and>
            (\<forall>name\<in>set filenames. files w1 name \<noteq> None)"
    by auto
next
  show "files v ''Icon.jpeg'' = files w ''Icon.jpeg'' \<longrightarrow>
            (\<exists>v1. icon_maker lib' v = (None, v1) \<and> new_events v v1 = full_run \<and>
               (\<forall>name\<in>set filenames. files v1 name = files w1 name) \<and>
               (\<forall>q. q \<notin> set filenames \<longrightarrow> files v1 q = files v q))"
  proof
    assume "files v ''Icon.jpeg'' = files w ''Icon.jpeg''"
    from run_again [OF assms this] show "\<exists>v1. icon_maker lib' v = (None, v1) \<and> new_events v v1 = full_run \<and>
               (\<forall>name\<in>set filenames. files v1 name = files w1 name) \<and>
               (\<forall>q. q \<notin> set filenames \<longrightarrow> files v1 q = files v q)"
      by blast
  qed
qed

theorem rerun_overwrites_with_same_outputs_witness:
  "fst (icon_maker (sim_pil []) (snd (icon_maker (sim_pil []) (desk ''RGB'')))) = None \<and>
   files (snd (icon_maker (sim_pil []) (snd (icon_maker (sim_pil []) (desk ''RGB''))))) =
     files (snd (icon_maker (sim_pil []) (desk ''RGB''))) \<and>
   new_events (snd (icon_maker (sim_pil []) (desk ''RGB'')))
     (snd (icon_maker (sim_pil []) (snd (icon_maker (sim_pil []) (desk ''RGB''))))) = full_run \<and>
   files (snd (icon_maker (sim_pil []) (desk ''RGB''))) ''icon48.png'' \<noteq> None \<and>
   files stale_desk ''icon16.png'' = Some (Raw [0]) \<and>
   fst (icon_maker (sim_pil []) stale_desk) = None \<and>
   files (snd (icon_maker (sim_pil []) stale_desk)) ''icon16.png'' =
     files (snd (icon_maker (sim_pil []) (desk ''RGB''))) ''icon16.png'' \<and>
   files (snd (icon_maker (sim_pil []) stale_desk)) ''notes.txt'' = Some (Raw [7])"
proof -
  let ?L = "sim_pil []"
  let ?w1 = "snd (icon_maker ?L (desk ''RGB''))"
  note t = rerun_overwrites_with_same_outputs
    [OF sim_save_local sim_save_local sim_same_behaviour rgb_run, of stale_desk]
  have m: "''icon48.png'' \<in> set filenames" "''icon16.png'' \<in> set filenames"
    "''notes.txt'' \<notin> set filenames"
    by (simp_all add: filenames_def)
  from t obtain w2 where r2: "icon_maker ?L ?w1 = (None, w2)"
    and same: "files w2 = files ?w1"
    and ev: "new_events ?w1 w2 = new_events (desk ''RGB'') ?w1" "new_events (desk ''RGB'') ?w1 = full_run"
    and there: "\<forall>name\<in>set filenames. files ?w1 name \<noteq> None"
    by blast
  from t stale_source obtain v1 where rv: "icon_maker ?L stale_desk = (None, v1)"
    and eq: "\<forall>name\<in>set filenames. files v1 name = files ?w1 name"
    and others: "\<forall>q. q \<notin> set filenames \<longrightarrow> files v1 q = files stale_desk q"
    by blast
  have a: "fst (icon_maker ?L ?w1) = None" using r2 by simp
  have b: "files (snd (icon_maker ?L ?w1)) = files ?w1" using r2 same by simp
  have c: "new_events ?w1 (snd (icon_maker ?L ?w1)) = full_run" using r2 ev by simp
  have d: "files ?w1 ''icon48.png'' \<noteq> None" using there m(1) by blast
  have e: "files stale_desk ''icon16.png'' = Some (Raw [0])" by (simp add: stale_desk_def)
  have f: "fst (icon_maker ?L stale_desk) = None" using rv by simp
  have g: "files (snd (icon_maker ?L stale_desk)) ''icon16.png'' = files ?w1 ''icon16.png''"
    using rv eq m(2) by simp
  have "files v1 ''notes.txt'' = files stale_desk ''notes.txt''" using others m(3) by blast
  then have h: "files (snd (icon_maker ?L stale_desk)) ''notes.txt'' = Some (Raw [7])"
    using rv by (simp add: stale_desk_def)
  from a b c d e f g h show ?thesis by blast
qed

subsection \<open>The shared source bitmap\<close>

text \<open>
  C7. The resize operations of the loop do not change the decoded source bitmap. Each
  \<open>resize\<close> of the library returns a fresh bitmap and leaves its receiver's size, mode and
  pixels alone, and the script does nothing else to \<open>img\<close>: after the loop, however it
  ends, \<open>img\<close> is the bitmap it was before, and every output written is the resize of that
  same source, never of an earlier output.
\<close>

theorem source_bitmap_unchanged:
  assumes "resize_copies lib" and "save_contract lib"
    and "loop lib img (zip sizes filenames) w = (r, img', w')"
  shows "img' = img \<and>
         (\<forall>(sz, name)\<in>set (zip sizes filenames). Write name \<in> set (new_events w w') \<longrightarrow>
            (\<exists>out. resize lib img sz = Inr (img, out) \<and>
                   files w' name = Some (Encoded ''PNG'' out)))"
proof -
  have a: "img' = img" using assms(1,3) by (rule loop_keeps_source)
  have d: "distinct (map snd (zip sizes filenames))"
    by (simp add: names_of_pairs distinct_filenames)
  from loop_run [OF assms(2) d assms(3)] obtain n where n: "n \<le> 3"
    and ev: "events w' = events w @ map Write (take n filenames)"
    and outs: "\<forall>(sz, name)\<in>set (take n (zip sizes filenames)). \<exists>src src' out.
        resize lib src sz = Inr (src', out) \<and> (resize_copies lib \<longrightarrow> src = img) \<and>
        files w' name = Some (Encoded ''PNG'' out)"
    unfolding names_of_pairs length_pairs by blast
  have fresh: "\<forall>(sz, name)\<in>set (take n (zip sizes filenames)).
      \<exists>out. resize lib img sz = Inr (img, out) \<and> files w' name = Some (Encoded ''PNG'' out)"
  proof (clarify)
    fix sz name assume "(sz, name) \<in> set (take n (zip sizes filenames))"
    with outs assms(1) obtain src' out where r: "resize lib img sz = Inr (src', out)"
      and f: "files w' name = Some (Encoded ''PNG'' out)" by blast
    from assms(1) r have "src' = img" unfolding resize_copies_def by blast
    with r f show "\<exists>out. resize lib img sz = Inr (img, out) \<and> files w' name = Some (Encoded ''PNG'' out)"
      by blast
  qed
  have written: "\<forall>(sz, name)\<in>set (zip sizes filenames).
      Write name \<in> set (new_events w w') \<longrightarrow> (sz, name) \<in> set (take n (zip sizes filenames))"
    using upto_three [OF n] unfolding new_events_append [OF ev]
    by (auto simp: sizes_def filenames_def)
  have b: "\<forall>(sz, name)\<in>set (zip sizes filenames). Write name \<in> set (new_events w w') \<longrightarrow>
            (\<exists>out. resize lib img sz = Inr (img, out) \<and>
                   files w' name = Some (Encoded ''PNG'' out))"
    using written fresh by fastforce
  from a b show ?thesis by (rule conjI)
qed

theorem source_bitmap_unchanged_witness:
  "resize_copies (sim_pil []) \<and>
   fst (snd (loop (sim_pil []) (photo ''RGB'') (zip sizes filenames) (desk ''RGB''))) = photo ''RGB'' \<and>
   files (snd (snd (loop (sim_pil []) (photo ''RGB'') (zip sizes filenames) (desk ''RGB''))))
     ''icon48.png'' = Some (Encoded ''PNG'' (nearest (photo ''RGB'') (48, 48)))"
proof -
  let ?w' = "snd (snd (loop (sim_pil []) (photo ''RGB'') (zip sizes filenames) (desk ''RGB'')))"
  note t = source_bitmap_unchanged [OF sim_resize_copies sim_save_contract rgb_loop]
  from t have a: "fst (snd (loop (sim_pil []) (photo ''RGB'') (zip sizes filenames) (desk ''RGB''))) = photo ''RGB''"
    by blast
  have p: "((48, 48), ''icon48.png'') \<in> set (zip sizes filenames)"
    by (simp add: sizes_def filenames_def)
  have e: "Write ''icon48.png'' \<in> set (new_events (desk ''RGB'') ?w')"
    by (simp add: rgb_loop_events)
  from t p e obtain out where r: "resize (sim_pil []) (photo ''RGB'') (48, 48) = Inr (photo ''RGB'', out)"
    and f: "files ?w' ''icon48.png'' = Some (Encoded ''PNG'' out)"
    by fast
  from r have "out = nearest (photo ''RGB'') (48, 48)"
    by (simp add: sim_pil_def sim_resize_def)
  with f a sim_resize_copies show ?thesis by blast
qed

subsection \<open>The success message and the exit status\<close>

text \<open>
  C8. On a run in which all three files are written, the script ends without an error,
  with exit status 0, and prints one line, the fixed message. The run takes nothing but
  the library and the world: no arguments, flags or environment.
\<close>

theorem completed_writes_print_and_exit_zero:
  assumes "icon_maker lib w = (r, w')"
    and "\<forall>name\<in>set filenames. Write name \<in> set (new_events w w')"
  shows "r = None \<and> exit_code r = 0 \<and>
         printed (new_events w w') = [''PNG icons generated successfully!'']"
proof -
  from icon_maker_events [OF assms(1)] obtain n where n: "n \<le> 3"
    and ev: "events w' = events w @ (if r = None then full_run else map Write (take n filenames))"
    and fin: "r = None \<longleftrightarrow> n = 3"
    by blast
  have new: "new_events w w' = (if r = None then full_run else map Write (take n filenames))"
    using ev by (rule new_events_append)
  have "Write ''icon128.png'' \<in> set (new_events w w')"
    using assms(2) by (simp add: filenames_def)
  then have r: "r = None"
    using upto_three [OF n] fin unfolding new by (auto simp: filenames_def)
  with new have "printed (new_events w w') = [''PNG icons generated successfully!'']"
    by (simp add: full_run_def filenames_def)
  with r show ?thesis by (simp add: exit_code_def)
qed

theorem completed_writes_print_and_exit_zero_witness:
  "Write ''icon16.png'' \<in> set (new_events (desk ''RGB'') (snd (icon_maker (sim_pil []) (desk ''RGB'')))) \<and>
   Write ''icon48.png'' \<in> set (new_events (desk ''RGB'') (snd (icon_maker (sim_pil []) (desk ''RGB'')))) \<and>
   Write ''icon128.png'' \<in> set (new_events (desk ''RGB'') (snd (icon_maker (sim_pil []) (desk ''RGB'')))) \<and>
   exit_code (fst (icon_maker (sim_pil []) (desk ''RGB''))) = 0 \<and>
   printed (new_events (desk ''RGB'') (snd (icon_maker (sim_pil []) (desk ''RGB'')))) =
     [''PNG icons generated successfully!'']"
proof -
  have a: "Write ''icon16.png'' \<in> set (new_events (desk ''RGB'') (snd (icon_maker (sim_pil []) (desk ''RGB''))))"
    "Write ''icon48.png'' \<in> set (new_events (desk ''RGB'') (snd (icon_maker (sim_pil []) (desk ''RGB''))))"
    "Write ''icon128.png'' \<in> set (new_events (desk ''RGB'') (snd (icon_maker (sim_pil []) (desk ''RGB''))))"
    by (simp_all add: rgb_run_events)
  then have all: "\<forall>name\<in>set filenames.
      Write name \<in> set (new_events (desk ''RGB'') (snd (icon_maker (sim_pil []) (desk ''RGB''))))"
    by (simp add: filenames_def)
  note t = completed_writes_print_and_exit_zero [OF rgb_run all]
  from t have b: "exit_code (fst (icon_maker (sim_pil []) (desk ''RGB''))) = 0"
    by (simp add: rgb_run_ends)
  from t have c: "printed (new_events (desk ''RGB'') (snd (icon_maker (sim_pil []) (desk ''RGB'')))) =
     [''PNG icons generated successfully!'']" by blast
  from a b c show ?thesis by blast
qed

subsection \<open>Runs that fail part of the way\<close>

text \<open>
  C9. A run is not atomic across iterations. When it ends with an error, some number
  \<open>n < 3\<close> of iterations have completed before the call that raised: the writes of the
  run are the first \<open>n\<close> filenames, those files are on disk as PNG files, and no other
  path is touched but the target of iteration \<open>n + 1\<close>. In particular, when the first \<open>k\<close>
  iterations have completed and the save of the next one raises, the run ends with that
  error and the \<open>k\<close> earlier outputs remain on disk as they were written. So a failure of
  the second or third save leaves the earlier outputs in place, and only a failure at or
  before the first save leaves no output.
\<close>

theorem earlier_outputs_survive_failure:
  assumes "save_contract lib"
  shows "(icon_maker lib w = (Some e, w') \<longrightarrow>
           (\<exists>n<3. new_events w w' = map Write (take n filenames) \<and>
              (\<forall>name\<in>set (take n filenames). format_of (files w') name = Some ''PNG'') \<and>
              (\<forall>q. q \<notin> set (take (Suc n) filenames) \<longrightarrow> files w' q = files w q))) \<and>
         (k < 3 \<and> Image_open lib (files w) ''Icon.jpeg'' = Inr img \<and>
          loop lib img (take k (zip sizes filenames)) w = (None, img1, w1) \<and>
          resize lib img1 (sizes ! k) = Inr (img2, out) \<and>
          save lib out (filenames ! k) ''PNG'' (files w1) = (Some e, fs') \<longrightarrow>
            icon_maker lib w = (Some e, w1\<lparr>files := fs'\<rparr>) \<and>
            new_events w (w1\<lparr>files := fs'\<rparr>) = map Write (take k filenames) \<and>
            (\<forall>name\<in>set (take k filenames). format_of fs' name = Some ''PNG''))"
proof (rule conjI; rule impI)
  assume run: "icon_maker lib w = (Some e, w')"
  from icon_maker_run [OF assms run] obtain n where n: "n \<le> 3" "n \<noteq> 3"
    and ev: "events w' = events w @ map Write (take n filenames)"
    and outs: "\<forall>(sz, name)\<in>set (take n (zip sizes filenames)). \<exists>src src' out.
                 resize lib src sz = Inr (src', out) \<and> files w' name = Some (Encoded ''PNG'' out)"
    and frame: "\<forall>q. q \<notin> set (take (Suc n) filenames) \<longrightarrow> files w' q = files w q"
    by auto
  have png: "\<forall>(sz, name)\<in>set (take n (zip sizes filenames)). format_of (files w') name = Some ''PNG''"
    using outs unfolding format_of_def by fastforce
  have "\<forall>name\<in>set (take n filenames). \<exists>sz. (sz, name) \<in> set (take n (zip sizes filenames))"
    using upto_three [OF n(1)] by (auto simp: sizes_def filenames_def)
  with png have b: "\<forall>name\<in>set (take n filenames). format_of (files w') name = Some ''PNG''"
    by fastforce
  from n have "n < 3" by simp
  with new_events_append [OF ev] b frame
  show "\<exists>n<3. new_events w w' = map Write (take n filenames) \<and>
              (\<forall>name\<in>set (take n filenames). format_of (files w') name = Some ''PNG'') \<and>
              (\<forall>q. q \<notin> set (take (Suc n) filenames) \<longrightarrow> files w' q = files w q)"
    by blast
next
  assume "k < 3 \<and> Image_open lib (files w) ''Icon.jpeg'' = Inr img \<and>
          loop lib img (take k (zip sizes filenames)) w = (None, img1, w1) \<and>
          resize lib img1 (sizes ! k) = Inr (img2, out) \<and>
          save lib out (filenames ! k) ''PNG'' (files w1) = (Some e, fs')"
  then have h: "k < 3" "Image_open lib (files w) ''Icon.jpeg'' = Inr img"
    "loop lib img (take k (zip sizes filenames)) w = (None, img1, w1)"
    "resize lib img1 (sizes ! k) = Inr (img2, out)"
    "save lib out (filenames ! k) ''PNG'' (files w1) = (Some e, fs')"
    by blast+
  from save_raises_at [OF assms h]
  show "icon_maker lib w = (Some e, w1\<lparr>files := fs'\<rparr>) \<and>
            new_events w (w1\<lparr>files := fs'\<rparr>) = map Write (take k filenames) \<and>
            (\<forall>name\<in>set (take k filenames). format_of fs' name = Some ''PNG'')" .
qed

theorem earlier_outputs_survive_failure_witness:
  "save (sim_pil [''icon48.png'']) (nearest (photo ''RGB'') (48, 48)) ''icon48.png'' ''PNG''
     [''Icon.jpeg'' \<mapsto> Encoded ''JPEG'' (photo ''RGB''),
      ''icon16.png'' \<mapsto> Encoded ''PNG'' (nearest (photo ''RGB'') (16, 16))] =
     (Some OSError,
      [''Icon.jpeg'' \<mapsto> Encoded ''JPEG'' (photo ''RGB''),
       ''icon16.png'' \<mapsto> Encoded ''PNG'' (nearest (photo ''RGB'') (16, 16))]) \<and>
   icon_maker (sim_pil [''icon48.png'']) (desk ''RGB'') =
     (Some OSError,
      \<lparr>files = [''Icon.jpeg'' \<mapsto> Encoded ''JPEG'' (photo ''RGB''),
                ''icon16.png'' \<mapsto> Encoded ''PNG'' (nearest (photo ''RGB'') (16, 16))],
       events = [Write ''icon16.png'']\<rparr>) \<and>
   format_of (files (snd (icon_maker (sim_pil [''icon48.png'']) (desk ''RGB'')))) ''icon16.png'' = Some ''PNG'' \<and>
   icon_maker (sim_pil [''icon16.png'']) (desk ''RGB'') = (Some OSError, desk ''RGB'')"
proof -
  let ?lib = "sim_pil [''icon48.png'']"
  let ?fs = "[''Icon.jpeg'' \<mapsto> Encoded ''JPEG'' (photo ''RGB''),
      ''icon16.png'' \<mapsto> Encoded ''PNG'' (nearest (photo ''RGB'') (16, 16))]"
  let ?w1 = "\<lparr>files = ?fs, events = [Write ''icon16.png'']\<rparr>"
  note t = earlier_outputs_survive_failure [OF sim_save_contract, of "[''icon48.png'']"]
  have k: "(1::nat) < 3" by simp
  have opened: "Image_open ?lib (files (desk ''RGB'')) ''Icon.jpeg'' = Inr (photo ''RGB'')"
    by (simp add: Image_open_def desk_def sim_pil_def sim_decode_def)
  have resized: "resize ?lib (photo ''RGB'') (sizes ! 1) = Inr (photo ''RGB'', nearest (photo ''RGB'') (48, 48))"
    by (simp add: sim_pil_def sim_resize_def sizes_def)
  have raised: "save ?lib (nearest (photo ''RGB'') (48, 48)) (filenames ! 1) ''PNG'' (files ?w1) =
      (Some OSError, ?fs)"
    by (simp add: sim_pil_def sim_save_def filenames_def)
  from t [of "desk ''RGB''" OSError _ 1 "photo ''RGB''" "photo ''RGB''" ?w1 "photo ''RGB''"
      "nearest (photo ''RGB'') (48, 48)" ?fs]
    k opened locked_prefix resized raised
  have a: "icon_maker ?lib (desk ''RGB'') = (Some OSError, ?w1\<lparr>files := ?fs\<rparr>)"
    by blast
  from raised have s: "save ?lib (nearest (photo ''RGB'') (48, 48)) ''icon48.png'' ''PNG'' ?fs =
      (Some OSError, ?fs)" by (simp add: filenames_def)
  from t [of "desk ''RGB''" OSError "snd (icon_maker ?lib (desk ''RGB''))"] locked_run
  obtain n where n: "n < 3"
    and ev: "new_events (desk ''RGB'') (snd (icon_maker ?lib (desk ''RGB''))) = map Write (take n filenames)"
    and png: "\<forall>name\<in>set (take n filenames).
        format_of (files (snd (icon_maker ?lib (desk ''RGB'')))) name = Some ''PNG''"
    by blast
  from ev have "length (take n filenames) = 1"
    unfolding locked_run_events by (metis length_map length_Cons list.size(3) One_nat_def)
  with n have "n = 1" by (simp add: filenames_def)
  with png have b: "format_of (files (snd (icon_maker ?lib (desk ''RGB'')))) ''icon16.png'' = Some ''PNG''"
    by (simp add: filenames_def)
  from a have a': "icon_maker ?lib (desk ''RGB'') = (Some OSError, ?w1)" by simp
  from s a' b first_locked_run show ?thesis by blast
qed

subsection \<open>Order of the effects\<close>

text \<open>
  C10. In every run the effects are an initial part of the sequence: write
  \<open>icon16.png\<close>, write \<open>icon48.png\<close>, write \<open>icon128.png\<close>, print the success message. So
  each write precedes the next, the message is never printed before the third write, and
  a printed message means the run reached its end with all three outputs on disk.
\<close>

theorem events_in_order:
  assumes "icon_maker lib w = (r, w')"
  shows "events w' = events w @ new_events w w' \<and>
         prefix (new_events w w')
           [Write ''icon16.png'', Write ''icon48.png'', Write ''icon128.png'',
            Print ''PNG icons generated successfully!''] \<and>
         (printed (new_events w w') \<noteq> [] \<longrightarrow>
            r = None \<and> new_events w w' = full_run \<and>
            (save_contract lib \<longrightarrow> (\<forall>name\<in>set filenames. files w' name \<noteq> None)))"
proof -
  from icon_maker_events [OF assms(1)] obtain n where n: "n \<le> 3"
    and ev: "events w' = events w @ (if r = None then full_run else map Write (take n filenames))"
    and fin: "r = None \<longleftrightarrow> n = 3"
    by blast
  have new: "new_events w w' = (if r = None then full_run else map Write (take n filenames))"
    using ev by (rule new_events_append)
  have a: "events w' = events w @ new_events w w'"
    using ev new by simp
  have full: "full_run = [Write ''icon16.png'', Write ''icon48.png'', Write ''icon128.png'',
            Print ''PNG icons generated successfully!'']"
    by (simp add: full_run_def filenames_def)
  have b: "prefix (new_events w w')
           [Write ''icon16.png'', Write ''icon48.png'', Write ''icon128.png'',
            Print ''PNG icons generated successfully!'']"
    using upto_three [OF n] fin unfolding new by (auto simp: full filenames_def)
  have silent: "printed (map Write xs) = []" for xs
    by (induction xs) simp_all
  have c: "printed (new_events w w') \<noteq> [] \<longrightarrow> r = None \<and> new_events w w' = full_run"
    unfolding new by (simp add: silent)
  have d: "r = None \<longrightarrow> save_contract lib \<longrightarrow> (\<forall>name\<in>set filenames. files w' name \<noteq> None)"
  proof (intro impI)
    assume "r = None" and sc: "save_contract lib"
    with assms have "icon_maker lib w = (None, w')" by simp
    from icon_maker_run [OF sc this] obtain k where "k = 3"
      "\<forall>(sz, name)\<in>set (take k (zip sizes filenames)). \<exists>src src' out.
                 resize lib src sz = Inr (src', out) \<and> files w' name = Some (Encoded ''PNG'' out)"
      by auto
    then show "\<forall>name\<in>set filenames. files w' name \<noteq> None"
      by (auto simp: sizes_def filenames_def)
  qed
  from a b c d show ?thesis by blast
qed

theorem events_in_order_witness:
  "prefix (new_events (desk ''RGB'') (snd (icon_maker (sim_pil [''icon48.png'']) (desk ''RGB''))))
     [Write ''icon16.png'', Write ''icon48.png'', Write ''icon128.png'',
      Print ''PNG icons generated successfully!''] \<and>
   new_events (desk ''RGB'') (snd (icon_maker (sim_pil [''icon48.png'']) (desk ''RGB''))) =
     [Write ''icon16.png''] \<and>
   printed (new_events (desk ''RGB'') (snd (icon_maker (sim_pil []) (desk ''RGB'')))) \<noteq> [] \<and>
   new_events (desk ''RGB'') (snd (icon_maker (sim_pil []) (desk ''RGB''))) = full_run \<and>
   files (snd (icon_maker (sim_pil []) (desk ''RGB''))) ''icon128.png'' \<noteq> None"
proof -
  from events_in_order [OF locked_run]
  have a: "prefix (new_events (desk ''RGB'') (snd (icon_maker (sim_pil [''icon48.png'']) (desk ''RGB''))))
     [Write ''icon16.png'', Write ''icon48.png'', Write ''icon128.png'',
      Print ''PNG icons generated successfully!'']" by blast
  have p: "printed (new_events (desk ''RGB'') (snd (icon_maker (sim_pil []) (desk ''RGB'')))) \<noteq> []"
    by (simp add: rgb_run_events)
  have m: "''icon128.png'' \<in> set filenames" by (simp add: filenames_def)
  from events_in_order [OF rgb_run] p sim_save_contract [of "[]"] m
  have b: "new_events (desk ''RGB'') (snd (icon_maker (sim_pil []) (desk ''RGB''))) = full_run"
    and c: "files (snd (icon_maker (sim_pil []) (desk ''RGB''))) ''icon128.png'' \<noteq> None"
    by blast+
  from a locked_run_events p b c show ?thesis by blast
qed

end
